theory Spec2Isabelle
  imports Complex_Main "HOL-Library.Char_ord" "HOL-Library.List_Lexorder"
    "HOL-Library.Product_Lexorder"
begin

section \<open>Long-form events and the input table\<close>

text \<open>
  A row of the input table (\<^verbatim>\<open>datetime, variable_name, value, source_file\<close>). A
  \<^verbatim>\<open>datetime\<close> is an integer count of microseconds, the resolution of Python's
  \<^verbatim>\<open>datetime\<close>; \<^verbatim>\<open>value\<close> and \<^verbatim>\<open>source_file\<close> are nullable columns, \<open>None\<close>
  being SQL NULL (pandas' missing value). The field \<^verbatim>\<open>value\<close> is called \<open>val\<close>.
\<close>

record event =
  datetime :: int
  variable_name :: string
  val :: "real option"
  source_file :: "string option"

datatype py_exn = KeyError | ValueError | TypeError | AttributeError | OverflowError | SqlError

text \<open>
  What \<^verbatim>\<open>sql_conn.execute_query\<close> meets when it runs: the call raises, it returns
  \<^verbatim>\<open>None\<close>, or it reads the table as it stands at that moment.
\<close>

datatype db_view = DbRaises | DbNone | DbTable "event list"

text \<open>\<^verbatim>\<open>since_datetime.strftime('%Y-%m-%d %H:%M:%S')\<close>: the fraction of a second is cut off.\<close>

definition strftime_sec :: "int \<Rightarrow> int" where
  "strftime_sec t = t - t mod 1000000"

text \<open>
  The query of \<^verbatim>\<open>get_new_data_from_sql\<close>:
  \<^verbatim>\<open>WHERE datetime > '<since>' ORDER BY datetime, variable_name\<close>.
  Rows with equal keys stay in table order (SQL leaves their order open).
\<close>

definition new_data_query :: "event list \<Rightarrow> int \<Rightarrow> event list" where
  "new_data_query tbl since_datetime =
     sort_key (\<lambda>e. (datetime e, variable_name e))
       (filter (\<lambda>e. strftime_sec since_datetime < datetime e) tbl)"

definition get_new_data_from_sql :: "db_view \<Rightarrow> int \<Rightarrow> py_exn + event list option" where
  "get_new_data_from_sql sql_conn since_datetime =
     (case sql_conn of
        DbRaises \<Rightarrow> Inl SqlError
      | DbNone \<Rightarrow> Inr None
      | DbTable tbl \<Rightarrow>
          (let df_long = new_data_query tbl since_datetime
           in if length df_long = 0 then Inr None else Inr (Some df_long)))"

section \<open>Long to wide and back\<close>

text \<open>
  \<^verbatim>\<open>pivot_table(index='datetime', columns='variable_name', values='value', aggfunc='first')\<close>.
  pandas' group-wise \<^verbatim>\<open>first\<close> returns the first entry of the group that is not missing.
  With the default \<^verbatim>\<open>dropna=True\<close> a group with no such entry is dropped before the
  table is unstacked, so the index holds the datetimes, and the columns the variables, of
  the rows whose value is present; both come out sorted. A cell with no group is missing.
\<close>

fun first_valid :: "'a option list \<Rightarrow> 'a option" where
  "first_valid [] = None"
| "first_valid (None # xs) = first_valid xs"
| "first_valid (Some x # xs) = Some x"

definition group_first :: "event list \<Rightarrow> int \<Rightarrow> string \<Rightarrow> real option" where
  "group_first df_long t v =
     first_valid (map val (filter (\<lambda>e. datetime e = t \<and> variable_name e = v) df_long))"

text \<open>
  A wide frame: the datetimes, one per row (the index of the pivot table, the column
  \<^verbatim>\<open>DATETIME\<close> after \<^verbatim>\<open>reset_index\<close> and the renaming), and one column of cells per
  variable, each as long as the datetimes.
\<close>

record wide_frame =
  DATETIME :: "int list"
  var_columns :: "(string \<times> real option list) list"

definition pivot_table_first :: "event list \<Rightarrow> wide_frame" where
  "pivot_table_first df_long =
     (let kept = filter (\<lambda>e. val e \<noteq> None) df_long;
          idx = sort (remdups (map datetime kept));
          names = sort (remdups (map variable_name kept))
      in \<lparr>DATETIME = idx,
          var_columns = map (\<lambda>v. (v, map (\<lambda>t. group_first df_long t v) idx)) names\<rparr>)"

text \<open>
  \<^verbatim>\<open>convert_long_to_wide\<close>: the pivot table, then \<^verbatim>\<open>reset_index\<close>, which inserts the index
  as a column called \<^verbatim>\<open>datetime\<close> and raises \<^verbatim>\<open>ValueError\<close> when a variable column has that
  name already, then the renaming of that column to \<^verbatim>\<open>DATETIME\<close>. When a variable is called
  \<^verbatim>\<open>DATETIME\<close> the frame has two columns of that name: the datetimes and the variable's.
\<close>

definition convert_long_to_wide :: "event list \<Rightarrow> py_exn + wide_frame" where
  "convert_long_to_wide df_long =
     (let df_wide = pivot_table_first df_long
      in if ''datetime'' \<in> set (map fst (var_columns df_wide)) then Inl ValueError
         else Inr df_wide)"

text \<open>\<^verbatim>\<open>df_wide.columns\<close>: \<^verbatim>\<open>DATETIME\<close>, then the variables.\<close>

definition wide_columns :: "wide_frame \<Rightarrow> string list" where
  "wide_columns df = ''DATETIME'' # map fst (var_columns df)"

text \<open>The cell of a wide frame at a datetime and a variable; missing when there is none.\<close>

definition wide_at :: "wide_frame \<Rightarrow> int \<Rightarrow> string \<Rightarrow> real option" where
  "wide_at df t v =
     (case map_of (var_columns df) v of
        None \<Rightarrow> None
      | Some cells \<Rightarrow> (case map_of (zip (DATETIME df) cells) t of None \<Rightarrow> None | Some x \<Rightarrow> x))"

text \<open>The cell of the widened events, or the exception that widening raises.\<close>

definition widened_at :: "event list \<Rightarrow> int \<Rightarrow> string \<Rightarrow> py_exn + real option" where
  "widened_at df_long t v =
     (case convert_long_to_wide df_long of
        Inl e \<Rightarrow> Inl e
      | Inr df_wide \<Rightarrow> Inr (wide_at df_wide t v))"

text \<open>
  \<^verbatim>\<open>df.melt(id_vars=[datetime_col], value_vars=variable_cols)\<close> on a frame it accepts: one
  row per cell, column after column.
\<close>

definition melt :: "wide_frame \<Rightarrow> (int \<times> string \<times> real option) list" where
  "melt df =
     concat (map (\<lambda>(v, cells). map (\<lambda>(t, x). (t, v, x)) (zip (DATETIME df) cells))
               (var_columns df))"

text \<open>
  \<^verbatim>\<open>transform_data_to_long_format\<close> of \<^verbatim>\<open>write_training_data_to_sql.py\<close>, with
  \<^verbatim>\<open>datetime_col\<close> at its default \<^verbatim>\<open>'DATETIME'\<close> (the one value the repository passes).
  \<^verbatim>\<open>melt\<close> raises \<^verbatim>\<open>ValueError\<close> when a column is called \<^verbatim>\<open>value\<close>, the name it gives to
  the value column; with a second column called \<^verbatim>\<open>DATETIME\<close> the identifier is a frame and
  not a column, and \<^verbatim>\<open>melt\<close> raises as well (\<^verbatim>\<open>AttributeError\<close> in pandas 2.2).
  \<^verbatim>\<open>if source_file:\<close> is false for \<^verbatim>\<open>None\<close> and for the empty string; the last step is
  \<^verbatim>\<open>dropna(subset=['value'])\<close>.
\<close>

definition transform_data_to_long_format ::
  "wide_frame \<Rightarrow> string option \<Rightarrow> py_exn + event list" where
  "transform_data_to_long_format df src =
     (if ''value'' \<in> set (wide_columns df) then Inl ValueError
      else if ''DATETIME'' \<in> set (map fst (var_columns df)) then Inl AttributeError
      else
        (let df_long = map (\<lambda>(t, v, x).
                         \<lparr>datetime = t, variable_name = v, val = x,
                          source_file = (case src of
                                           None \<Rightarrow> None
                                         | Some s \<Rightarrow> if s = [] then None else Some s)\<rparr>)
                         (melt df)
         in Inr (filter (\<lambda>e. val e \<noteq> None) df_long)))"

text \<open>Widening, then narrowing.\<close>

definition widen_then_narrow :: "event list \<Rightarrow> string option \<Rightarrow> py_exn + event list" where
  "widen_then_narrow df_long src =
     (case convert_long_to_wide df_long of
        Inl e \<Rightarrow> Inl e
      | Inr df_wide \<Rightarrow> transform_data_to_long_format df_wide src)"

text \<open>The \<^verbatim>\<open>(timestamp, variable, value)\<close> triple of an event.\<close>

definition triple :: "event \<Rightarrow> int \<times> string \<times> real option" where
  "triple e = (datetime e, variable_name e, val e)"

definition key :: "event \<Rightarrow> int \<times> string" where
  "key e = (datetime e, variable_name e)"

section \<open>Result frames\<close>

text \<open>
  A cell of a \<^verbatim>\<open>float64\<close> column: not-a-number (pandas' missing value), an infinity, or
  a finite number. The finite numbers are reals, and \<^verbatim>\<open>999.99\<close> is the real number: the
  steps below only compare and select.
\<close>

datatype fnum = NaN | NegInf | Fin real | PosInf

text \<open>
  The resolution of a \<^verbatim>\<open>datetime64\<close> column, and the microseconds a count in that
  resolution stands for, when they are whole.
\<close>

datatype time_unit = Seconds | Milliseconds | Microseconds | Nanoseconds

definition to_microseconds :: "time_unit \<Rightarrow> int \<Rightarrow> int option" where
  "to_microseconds u t =
     (case u of
        Seconds \<Rightarrow> Some (t * 1000000)
      | Milliseconds \<Rightarrow> Some (t * 1000)
      | Microseconds \<Rightarrow> Some t
      | Nanoseconds \<Rightarrow> (if t mod 1000 = 0 then Some (t div 1000) else None))"

text \<open>
  A column of a \<^verbatim>\<open>DataFrame\<close>, by dtype: \<^verbatim>\<open>bool\<close>, \<^verbatim>\<open>int64\<close>, \<^verbatim>\<open>float64\<close>, text
  (\<^verbatim>\<open>object\<close>, \<open>None\<close> a missing cell) and \<^verbatim>\<open>datetime64\<close> (its resolution and its
  counts). A frame is its number of rows and its columns by name.
\<close>

datatype column =
    BoolCol "bool list"
  | IntCol "int list"
  | FloatCol "fnum list"
  | StrCol "string option list"
  | TimeCol time_unit "int list"

record frame =
  n_rows :: nat
  cols :: "string \<rightharpoonup> column"

type_synonym batch = "(string \<times> column) list"

subsection \<open>The \<^verbatim>\<open>Series\<close> methods the worker calls\<close>

definition is_finite :: "fnum \<Rightarrow> bool" where
  "is_finite x = (case x of Fin r \<Rightarrow> True | _ \<Rightarrow> False)"

definition in_int64 :: "int \<Rightarrow> bool" where
  "in_int64 n = (- (2 ^ 63) \<le> n \<and> n < 2 ^ 63)"

text \<open>
  The cast of a finite float to \<^verbatim>\<open>int64\<close>: cut towards zero; out of range, the cast gives
  the least \<^verbatim>\<open>int64\<close>.
\<close>

definition trunc_cell :: "fnum \<Rightarrow> int" where
  "trunc_cell x =
     (case x of
        Fin r \<Rightarrow> (let n = (if 0 \<le> r then \<lfloor>r\<rfloor> else \<lceil>r\<rceil>)
                  in if in_int64 n then n else - (2 ^ 63))
      | _ \<Rightarrow> - (2 ^ 63))"

text \<open>
  Python's \<^verbatim>\<open>int\<close> of a text (ASCII): white space around it is dropped; then an optional
  sign and decimal digits, where one underscore may stand between two digits.
\<close>

definition is_space :: "char \<Rightarrow> bool" where
  "is_space c = (let n = (of_char c :: nat) in (9 \<le> n \<and> n \<le> 13) \<or> (28 \<le> n \<and> n \<le> 32))"

definition digit_of :: "char \<Rightarrow> nat option" where
  "digit_of c =
     (let n = (of_char c :: nat) in if 48 \<le> n \<and> n \<le> 57 then Some (n - 48) else None)"

fun read_digits :: "nat \<Rightarrow> bool \<Rightarrow> string \<Rightarrow> nat option" where
  "read_digits acc need_digit [] = (if need_digit then None else Some acc)"
| "read_digits acc need_digit (c # cs) =
     (case digit_of c of
        Some d \<Rightarrow> read_digits (10 * acc + d) False cs
      | None \<Rightarrow> if c = CHR ''_'' \<and> \<not> need_digit then read_digits acc True cs else None)"

definition py_int :: "string \<Rightarrow> int option" where
  "py_int s =
     (let s1 = rev (dropWhile is_space (rev (dropWhile is_space s)))
      in case s1 of
           [] \<Rightarrow> None
         | c # cs \<Rightarrow>
             if c = CHR ''-'' then map_option (\<lambda>n. - int n) (read_digits 0 True cs)
             else if c = CHR ''+'' then map_option int (read_digits 0 True cs)
             else map_option int (read_digits 0 True s1))"

text \<open>
  The cast of one cell of a text column to \<^verbatim>\<open>int64\<close>: \<^verbatim>\<open>TypeError\<close> for a missing cell,
  \<^verbatim>\<open>ValueError\<close> for a text that is no integer, \<^verbatim>\<open>OverflowError\<close> for one out of range.
\<close>

definition text_to_int :: "string option \<Rightarrow> py_exn + int" where
  "text_to_int cell =
     (case cell of
        None \<Rightarrow> Inl TypeError
      | Some s \<Rightarrow> (case py_int s of
                     None \<Rightarrow> Inl ValueError
                   | Some n \<Rightarrow> if in_int64 n then Inr n else Inl OverflowError))"

text \<open>Cell after cell; the first cell that raises ends the cast.\<close>

fun cast_cells :: "('a \<Rightarrow> py_exn + int) \<Rightarrow> 'a list \<Rightarrow> py_exn + int list" where
  "cast_cells f [] = Inr []"
| "cast_cells f (x # xs) =
     (case f x of
        Inl e \<Rightarrow> Inl e
      | Inr n \<Rightarrow> (case cast_cells f xs of Inl e \<Rightarrow> Inl e | Inr ns \<Rightarrow> Inr (n # ns)))"

text \<open>
  \<^verbatim>\<open>.astype(int)\<close>, where \<^verbatim>\<open>int\<close> is the 64-bit integer dtype: \<^verbatim>\<open>True\<close> is 1 and \<^verbatim>\<open>False\<close>
  is 0; a float column raises (\<^verbatim>\<open>IntCastingNaNError\<close>, a \<^verbatim>\<open>ValueError\<close>) when a cell is
  missing or infinite, and is cast cell by cell otherwise; a text column is cast cell by
  cell; a datetime column gives its counts in its own resolution.
\<close>

definition astype_int :: "column \<Rightarrow> py_exn + column" where
  "astype_int c =
     (case c of
        BoolCol bs \<Rightarrow> Inr (IntCol (map (\<lambda>b. if b then 1 else 0) bs))
      | IntCol ns \<Rightarrow> Inr (IntCol ns)
      | FloatCol xs \<Rightarrow>
          (if list_all is_finite xs then Inr (IntCol (map trunc_cell xs)) else Inl ValueError)
      | StrCol ss \<Rightarrow> (case cast_cells text_to_int ss of
                        Inl e \<Rightarrow> Inl e
                      | Inr ns \<Rightarrow> Inr (IntCol ns))
      | TimeCol u ts \<Rightarrow> Inr (IntCol ts))"

definition fillna_cell :: "real \<Rightarrow> fnum \<Rightarrow> fnum" where
  "fillna_cell v x = (if x = NaN then Fin v else x)"

text \<open>\<^verbatim>\<open>clip\<close> keeps a missing cell and saturates every other one.\<close>

definition clip_cell :: "real \<Rightarrow> real \<Rightarrow> fnum \<Rightarrow> fnum" where
  "clip_cell lower upper x =
     (case x of
        NaN \<Rightarrow> NaN
      | NegInf \<Rightarrow> Fin lower
      | PosInf \<Rightarrow> Fin upper
      | Fin r \<Rightarrow> Fin (if r < lower then lower else if upper < r then upper else r))"

definition replace_inf_cell :: "fnum \<Rightarrow> fnum" where
  "replace_inf_cell x = (if x = PosInf \<or> x = NegInf then NaN else x)"

text \<open>\<^verbatim>\<open>.replace([np.inf, -np.inf], np.nan)\<close>: only a float column holds an infinity.\<close>

definition replace_inf :: "column \<Rightarrow> column" where
  "replace_inf c = (case c of FloatCol xs \<Rightarrow> FloatCol (map replace_inf_cell xs) | _ \<Rightarrow> c)"

text \<open>
  \<^verbatim>\<open>.fillna(0).clip(lower=0, upper=999.99)\<close>. An integer column has nothing to fill; it
  stays an integer column unless a cell exceeds the upper bound, which makes it a float
  column. A boolean column is within the bounds and is returned as it is. A text column
  whose cells are all missing is filled with 0; any text cell makes the comparison of
  \<^verbatim>\<open>clip\<close> raise, as a datetime column does.
\<close>

definition fillna_clip :: "column \<Rightarrow> py_exn + column" where
  "fillna_clip c =
     (case c of
        FloatCol xs \<Rightarrow> Inr (FloatCol (map (\<lambda>x. clip_cell 0 999.99 (fillna_cell 0 x)) xs))
      | IntCol ns \<Rightarrow>
          (let ns1 = map (\<lambda>n. if n < 0 then 0 else n) ns
           in if list_ex (\<lambda>n. 999.99 < real_of_int n) ns1
              then Inr (FloatCol (map (\<lambda>n. clip_cell 0 999.99 (Fin (real_of_int n))) ns1))
              else Inr (IntCol ns1))
      | BoolCol bs \<Rightarrow> Inr (BoolCol bs)
      | StrCol ss \<Rightarrow>
          (if ss = [] then Inr (StrCol ss)
           else if list_all (\<lambda>s. s = None) ss then Inr (IntCol (map (\<lambda>s. 0) ss))
           else Inl TypeError)
      | TimeCol u ts \<Rightarrow> Inl TypeError)"

text \<open>
  \<^verbatim>\<open>results['is_anomaly'].sum()\<close>. Line 231 meets the column after \<^verbatim>\<open>astype(int)\<close>, so it is
  an integer column there; the other dtypes do not reach it.
\<close>

definition col_sum :: "column \<Rightarrow> py_exn + int" where
  "col_sum c =
     (case c of
        IntCol ns \<Rightarrow> Inr (sum_list ns)
      | BoolCol bs \<Rightarrow> Inr (int (length (filter (\<lambda>b. b) bs)))
      | _ \<Rightarrow> Inl TypeError)"

subsection \<open>Lines 191 to 221 of \<^verbatim>\<open>process_new_anomalies\<close>\<close>

text \<open>
  \<^verbatim>\<open>df_long.groupby(['datetime', 'variable_name'])['source_file'].first().to_dict()\<close>:
  every key of the batch, with the first source that is not missing.
\<close>

definition source_file_map :: "event list \<Rightarrow> int \<times> string \<Rightarrow> string option option" where
  "source_file_map df_long k =
     (if k \<in> set (map key df_long)
      then Some (first_valid (map source_file (filter (\<lambda>e. key e = k) df_long)))
      else None)"

text \<open>
  \<^verbatim>\<open>(row['ds'], row['variable'])\<close> for every row: a key of the map can only be met by a
  datetime of whole microseconds and a text.
\<close>

definition row_keys :: "frame \<Rightarrow> py_exn + (int \<times> string) option list" where
  "row_keys results =
     (case (cols results ''ds'', cols results ''variable'') of
        (Some (TimeCol u ts), Some (StrCol vs)) \<Rightarrow>
          Inr (map (\<lambda>(t, v). case (to_microseconds u t, v) of
                               (Some t', Some s) \<Rightarrow> Some (t', s)
                             | _ \<Rightarrow> None) (zip ts vs))
      | (Some c, Some d) \<Rightarrow> Inr (replicate (n_rows results) None)
      | _ \<Rightarrow> Inl KeyError)"

definition add_source_file :: "event list \<Rightarrow> frame \<Rightarrow> py_exn + frame" where
  "add_source_file df_long results =
     (if ''source_file'' \<in> dom (cols results) then Inr results
      else case row_keys results of
             Inl e \<Rightarrow> Inl e
           | Inr ks \<Rightarrow>
               Inr (results\<lparr>cols := (cols results)(''source_file'' \<mapsto>
                      StrCol (map (\<lambda>k. case k of
                                          None \<Rightarrow> Some ''unknown''
                                        | Some k' \<Rightarrow> (case source_file_map df_long k' of
                                                       None \<Rightarrow> Some ''unknown''
                                                     | Some s \<Rightarrow> s)) ks))\<rparr>))"

definition bool_cols :: "string list" where
  "bool_cols = [''outside_interval'', ''high_residual'', ''is_anomaly'']"

text \<open>The loop of lines 201 to 203.\<close>

fun convert_bools :: "string list \<Rightarrow> (string \<rightharpoonup> column) \<Rightarrow> py_exn + (string \<rightharpoonup> column)" where
  "convert_bools [] cs = Inr cs"
| "convert_bools (col # rest) cs =
     (case cs col of
        None \<Rightarrow> convert_bools rest cs
      | Some c \<Rightarrow> (case astype_int c of
                     Inl e \<Rightarrow> Inl e
                   | Inr c' \<Rightarrow> convert_bools rest (cs(col \<mapsto> c'))))"

text \<open>Lines 206 and 207.\<close>

definition clean_anomaly_score :: "(string \<rightharpoonup> column) \<Rightarrow> py_exn + (string \<rightharpoonup> column)" where
  "clean_anomaly_score cs =
     (case cs ''anomaly_score'' of
        None \<Rightarrow> Inr cs
      | Some c \<Rightarrow> (case fillna_clip c of
                     Inl e \<Rightarrow> Inl e
                   | Inr c' \<Rightarrow> Inr (cs(''anomaly_score'' \<mapsto> c'))))"

text \<open>Lines 209 to 211.\<close>

definition clean_prediction_error_pct ::
  "(string \<rightharpoonup> column) \<Rightarrow> py_exn + (string \<rightharpoonup> column)" where
  "clean_prediction_error_pct cs =
     (case cs ''prediction_error_pct'' of
        None \<Rightarrow> Inr cs
      | Some c \<Rightarrow> (case fillna_clip (replace_inf c) of
                     Inl e \<Rightarrow> Inl e
                   | Inr c' \<Rightarrow> Inr (cs(''prediction_error_pct'' \<mapsto> c'))))"

text \<open>Lines 199 to 211 together: what the specification calls \<^verbatim>\<open>sanitize\<close>.\<close>

definition sanitize :: "frame \<Rightarrow> py_exn + frame" where
  "sanitize results =
     (case convert_bools bool_cols (cols results) of
        Inl e \<Rightarrow> Inl e
      | Inr cs1 \<Rightarrow>
          (case clean_anomaly_score cs1 of
             Inl e \<Rightarrow> Inl e
           | Inr cs2 \<Rightarrow>
               (case clean_prediction_error_pct cs2 of
                  Inl e \<Rightarrow> Inl e
                | Inr cs3 \<Rightarrow> Inr (results\<lparr>cols := cs3\<rparr>))))"

definition columns_to_write :: "string list" where
  "columns_to_write =
     [''ds'', ''y'', ''yhat'', ''yhat_lower'', ''yhat_upper'', ''residual'',
      ''outside_interval'', ''high_residual'', ''is_anomaly'', ''anomaly_score'',
      ''variable'', ''prediction_error_pct'', ''source_file'']"

text \<open>Lines 220 and 221: \<^verbatim>\<open>results[available_cols].copy()\<close>.\<close>

definition results_to_write :: "frame \<Rightarrow> batch" where
  "results_to_write results =
     map (\<lambda>col. (col, the (cols results col)))
       (filter (\<lambda>col. col \<in> dom (cols results)) columns_to_write)"

section \<open>One processing pass: \<^verbatim>\<open>process_new_anomalies\<close>\<close>

text \<open>
  The detector is an outside collaborator: the names of its loaded models (the keys of
  \<^verbatim>\<open>detector.models\<close>, in their order) and \<^verbatim>\<open>detect_anomalies_multiple\<close>, which raises,
  returns \<^verbatim>\<open>None\<close> or returns a frame.
\<close>

record prophet_detector =
  models :: "string list"
  detect_anomalies_multiple :: "wide_frame \<Rightarrow> string list \<Rightarrow> py_exn + frame option"

text \<open>\<^verbatim>\<open>sql_conn.write_dataframe\<close> raises, returns a false value or returns a true one.\<close>

datatype write_outcome = WriteRaises | WriteFalse | WriteTrue

text \<open>
  What \<^verbatim>\<open>df_wide['DATETIME'].nunique()\<close> gives: a number, or, when the frame has two
  columns called \<^verbatim>\<open>DATETIME\<close>, a series with one number for each.
\<close>

datatype nunique = Count nat | PerColumn "nat list"

definition datetime_nunique :: "wide_frame \<Rightarrow> nunique" where
  "datetime_nunique df_wide =
     (case map_of (var_columns df_wide) ''DATETIME'' of
        None \<Rightarrow> Count (length (remdups (DATETIME df_wide)))
      | Some cells \<Rightarrow>
          PerColumn [length (remdups (DATETIME df_wide)),
                     length (remdups (filter (\<lambda>x. x \<noteq> None) cells))])"

text \<open>The lines printed to the console and the records sent to the logger.\<close>

datatype log_msg =
    InfoDatosEncontrados nat
  | InfoDatosConvertidos nunique nat
  | AdvertenciaNoHayVariablesComunes nat nat
  | InfoVariablesAAnalizar nat nat
  | ErrorProcesandoAnomalias py_exn
  | OkProcesados nat int int
  | ErrorEnCheckAndProcess py_exn

text \<open>
  The body of the \<^verbatim>\<open>try\<close> of lines 180 to 234: the calls made to \<^verbatim>\<open>write_dataframe\<close>, each
  with its outcome, and either the exception that left the body or the pair it returns.
\<close>

definition detect_and_write ::
  "(batch \<Rightarrow> write_outcome) \<Rightarrow> prophet_detector \<Rightarrow> event list \<Rightarrow> wide_frame \<Rightarrow> string list \<Rightarrow>
     nunique \<Rightarrow> (batch \<times> write_outcome) list \<times> (py_exn + nunique \<times> int)" where
  "detect_and_write write_dataframe detector df_long df_wide available_vars unique_datetimes =
     (case detect_anomalies_multiple detector df_wide available_vars of
        Inl e \<Rightarrow> ([], Inl e)
      | Inr None \<Rightarrow> ([], Inr (Count 0, 0))
      | Inr (Some results0) \<Rightarrow>
          if n_rows results0 = 0 then ([], Inr (Count 0, 0))
          else (case add_source_file df_long results0 of
                  Inl e \<Rightarrow> ([], Inl e)
                | Inr results1 \<Rightarrow>
                    (case sanitize results1 of
                       Inl e \<Rightarrow> ([], Inl e)
                     | Inr results \<Rightarrow>
                         (let to_write = results_to_write results;
                              success = write_dataframe to_write
                          in case success of
                               WriteRaises \<Rightarrow> ([(to_write, success)], Inl SqlError)
                             | WriteFalse \<Rightarrow> ([(to_write, success)], Inr (Count 0, 0))
                             | WriteTrue \<Rightarrow>
                                 ([(to_write, success)],
                                  (case cols results ''is_anomaly'' of
                                     None \<Rightarrow> Inl KeyError
                                   | Some c \<Rightarrow>
                                       (case col_sum c of
                                          Inl e \<Rightarrow> Inl e
                                        | Inr n_anomalies \<Rightarrow>
                                            Inr (unique_datetimes, n_anomalies))))))))"

text \<open>
  What a call of \<^verbatim>\<open>process_new_anomalies\<close> leaves behind: the pair it returns (\<open>Inl\<close>: the
  exception that left the function), the calls to \<^verbatim>\<open>write_dataframe\<close> and the lines it
  printed or logged.
\<close>

record proc_out =
  ret :: "py_exn + nunique \<times> int"
  write_calls :: "(batch \<times> write_outcome) list"
  console :: "log_msg list"

text \<open>
  An exception raised before the \<^verbatim>\<open>try\<close> (by the query, by \<^verbatim>\<open>reset_index\<close>, or by
  \<^verbatim>\<open>detector.models\<close> when the detector is \<^verbatim>\<open>None\<close>) leaves the function; one raised inside
  is logged and gives \<^verbatim>\<open>(0, 0)\<close>.
\<close>

definition process_new_anomalies ::
  "db_view \<Rightarrow> (batch \<Rightarrow> write_outcome) \<Rightarrow> prophet_detector option \<Rightarrow> int \<Rightarrow> proc_out" where
  "process_new_anomalies sql_view write_dataframe detector since_datetime =
     (case get_new_data_from_sql sql_view since_datetime of
        Inl e \<Rightarrow> \<lparr>ret = Inl e, write_calls = [], console = []\<rparr>
      | Inr None \<Rightarrow> \<lparr>ret = Inr (Count 0, 0), write_calls = [], console = []\<rparr>
      | Inr (Some df_long) \<Rightarrow>
          (let out0 = [InfoDatosEncontrados (length df_long)]
           in case convert_long_to_wide df_long of
                Inl e \<Rightarrow> \<lparr>ret = Inl e, write_calls = [], console = out0\<rparr>
              | Inr df_wide \<Rightarrow>
                  (let unique_datetimes = datetime_nunique df_wide;
                       n_vars = length (wide_columns df_wide) - 1;
                       out1 = out0 @ [InfoDatosConvertidos unique_datetimes n_vars]
                   in case detector of
                        None \<Rightarrow> \<lparr>ret = Inl AttributeError, write_calls = [], console = out1\<rparr>
                      | Some det \<Rightarrow>
                          (let available_vars =
                                 filter (\<lambda>v. v \<in> set (wide_columns df_wide)) (models det)
                           in if available_vars = []
                              then \<lparr>ret = Inr (Count 0, 0), write_calls = [],
                                    console = out1 @
                                      [AdvertenciaNoHayVariablesComunes
                                         (length (models det)) n_vars]\<rparr>
                              else
                                (let out2 = out1 @
                                       [InfoVariablesAAnalizar (length available_vars)
                                          (length (models det))]
                                 in case detect_and_write write_dataframe det df_long df_wide
                                           available_vars unique_datetimes of
                                      (ws, Inl e) \<Rightarrow>
                                        \<lparr>ret = Inr (Count 0, 0), write_calls = ws,
                                         console = out2 @ [ErrorProcesandoAnomalias e]\<rparr>
                                    | (ws, Inr r) \<Rightarrow>
                                        \<lparr>ret = Inr r, write_calls = ws,
                                         console = out2\<rparr>)))))"

section \<open>The worker\<close>

record connection =
  connected :: bool

text \<open>The fields of \<^verbatim>\<open>AnomalyDetectionWorker\<close>; \<open>None\<close> is Python's \<^verbatim>\<open>None\<close>.\<close>

record worker =
  check_interval_minutes :: int
  check_interval_seconds :: int
  sql_conn :: "connection option"
  detector :: "prophet_detector option"
  last_processed_datetime :: "int option"
  total_processed :: nat
  total_anomalies :: int
  iterations :: nat

text \<open>\<^verbatim>\<open>__init__\<close>.\<close>

definition worker_init :: "int \<Rightarrow> worker" where
  "worker_init interval =
     \<lparr>check_interval_minutes = interval, check_interval_seconds = interval * 60,
      sql_conn = None, detector = None, last_processed_datetime = None,
      total_processed = 0, total_anomalies = 0, iterations = 0\<rparr>"

text \<open>
  What one cycle meets outside the worker. The cycle reads the input table three times
  (line 319, line 154 inside \<^verbatim>\<open>process_new_anomalies\<close>, line 333), and other processes
  write to that table, so each read has its own view.
\<close>

record cycle_env =
  check_view :: db_view
  batch_view :: db_view
  write_dataframe :: "batch \<Rightarrow> write_outcome"
  max_view :: db_view

text \<open>
  \<^verbatim>\<open>SELECT MAX(datetime) FROM <input table>\<close> and the test of line 335: a value, when the
  query returned a frame whose maximum is not NULL.
\<close>

definition max_datetime_query :: "db_view \<Rightarrow> py_exn + int option" where
  "max_datetime_query v =
     (case v of
        DbRaises \<Rightarrow> Inl SqlError
      | DbNone \<Rightarrow> Inr None
      | DbTable tbl \<Rightarrow> Inr (if tbl = [] then None else Some (Max (set (map datetime tbl)))))"

text \<open>Lines 337 and 338.\<close>

definition advance :: "int \<Rightarrow> int \<Rightarrow> int" where
  "advance current new_last = (if new_last > current then new_last else current)"

record cycle_out =
  processed :: bool
  after :: worker
  written :: "(batch \<times> write_outcome) list"
  printed :: "log_msg list"

text \<open>
  \<^verbatim>\<open>check_and_process\<close>. Whatever is raised inside is caught by line 349 and gives
  \<^verbatim>\<open>False\<close>; a connection or a watermark that is still \<^verbatim>\<open>None\<close> raises
  \<^verbatim>\<open>AttributeError\<close> in the first query, and the test of line 331 raises \<^verbatim>\<open>ValueError\<close>
  when the number of datetimes is a series.
\<close>

definition check_and_process :: "worker \<Rightarrow> cycle_env \<Rightarrow> cycle_out" where
  "check_and_process self env =
     (case (sql_conn self, last_processed_datetime self) of
        (Some conn, Some since) \<Rightarrow>
          (case get_new_data_from_sql (check_view env) since of
             Inl e \<Rightarrow> \<lparr>processed = False, after = self, written = [],
                       printed = [ErrorEnCheckAndProcess e]\<rparr>
           | Inr None \<Rightarrow> \<lparr>processed = False, after = self, written = [], printed = []\<rparr>
           | Inr (Some df_long) \<Rightarrow>
               (let out = process_new_anomalies (batch_view env) (write_dataframe env)
                            (detector self) since
                in case ret out of
                     Inl e \<Rightarrow> \<lparr>processed = False, after = self, written = write_calls out,
                               printed = console out @ [ErrorEnCheckAndProcess e]\<rparr>
                   | Inr (PerColumn ns, n_anomalies) \<Rightarrow>
                       \<lparr>processed = False, after = self, written = write_calls out,
                        printed = console out @ [ErrorEnCheckAndProcess ValueError]\<rparr>
                   | Inr (Count n_datetimes, n_anomalies) \<Rightarrow>
                       if n_datetimes > 0
                       then (case max_datetime_query (max_view env) of
                               Inl e \<Rightarrow>
                                 \<lparr>processed = False, after = self, written = write_calls out,
                                  printed = console out @ [ErrorEnCheckAndProcess e]\<rparr>
                             | Inr result \<Rightarrow>
                                 (let self1 =
                                        (case result of
                                           None \<Rightarrow> self
                                         | Some new_last \<Rightarrow>
                                             self\<lparr>last_processed_datetime :=
                                                    Some (advance since new_last)\<rparr>);
                                      self2 = self1\<lparr>total_processed :=
                                                       total_processed self1 + n_datetimes,
                                                     total_anomalies :=
                                                       total_anomalies self1 + n_anomalies\<rparr>
                                  in \<lparr>processed = True, after = self2,
                                      written = write_calls out,
                                      printed = console out @
                                        [OkProcesados n_datetimes n_anomalies
                                           (total_anomalies self2)]\<rparr>))
                       else \<lparr>processed = False, after = self, written = write_calls out,
                             printed = console out\<rparr>))
      | _ \<Rightarrow> \<lparr>processed = False, after = self, written = [],
               printed = [ErrorEnCheckAndProcess AttributeError]\<rparr>)"

subsection \<open>\<^verbatim>\<open>initialize\<close>\<close>

text \<open>
  What \<^verbatim>\<open>initialize\<close> meets: whether model files exist, whether \<^verbatim>\<open>connect\<close> succeeds,
  whether creating the table raises, the detector as constructed and what loading its models
  gives, the \<^verbatim>\<open>ds\<close> values of the output table as \<^verbatim>\<open>get_last_processed_datetime\<close> meets
  them (\<open>Inl\<close>: the query raises; \<open>None\<close>: it returns \<^verbatim>\<open>None\<close>), and the clock.
\<close>

record init_env =
  models_found :: bool
  connect_ok :: bool
  create_table_raises :: bool
  new_detector :: prophet_detector
  load_models :: "py_exn + prophet_detector"
  output_ds :: "py_exn + int list option"
  now :: int

definition get_last_processed_datetime :: "py_exn + int list option \<Rightarrow> py_exn + int option" where
  "get_last_processed_datetime v =
     (case v of
        Inl e \<Rightarrow> Inl e
      | Inr None \<Rightarrow> Inr None
      | Inr (Some ds) \<Rightarrow> Inr (if ds = [] then None else Some (Max (set ds))))"

definition initialize :: "worker \<Rightarrow> init_env \<Rightarrow> bool \<times> worker" where
  "initialize self env =
     (if \<not> models_found env then (False, self)
      else
        (let self1 = self\<lparr>sql_conn := Some \<lparr>connected = connect_ok env\<rparr>\<rparr>
         in if \<not> connect_ok env then (False, self1)
            else if create_table_raises env then (False, self1)
            else (case load_models env of
                    Inl e \<Rightarrow> (False, self1\<lparr>detector := Some (new_detector env)\<rparr>)
                  | Inr det \<Rightarrow>
                      (let self2 = self1\<lparr>detector := Some det\<rparr>
                       in case get_last_processed_datetime (output_ds env) of
                            Inl e \<Rightarrow> (False, self2)
                          | Inr (Some last_ds) \<Rightarrow>
                              (True, self2\<lparr>last_processed_datetime := Some last_ds\<rparr>)
                          | Inr None \<Rightarrow>
                              (True, self2\<lparr>last_processed_datetime :=
                                             Some (now env - 24 * 3600 * 1000000)\<rparr>)))))"

subsection \<open>\<^verbatim>\<open>run\<close>\<close>

text \<open>
  What ends the \<^verbatim>\<open>while True\<close> loop: a keyboard interrupt, or anything else that leaves
  the loop body. One turn of the loop either completes (the cycle, then the sleep), is cut
  during the sleep, or is cut before \<^verbatim>\<open>check_and_process\<close> has touched anything.
\<close>

datatype stop = KeyboardInterrupt | OtherEscape

datatype iteration =
    Completes cycle_env
  | StopsWhileSleeping cycle_env stop
  | StopsBeforeCheck stop

text \<open>
  The loop of lines 370 to 391 over the turns that are given. \<open>None\<close>: every given turn
  completed, and the loop is still going.
\<close>

fun while_true :: "worker \<Rightarrow> iteration list \<Rightarrow> (worker \<times> stop) option" where
  "while_true self [] = None"
| "while_true self (Completes env # rest) =
     while_true (after (check_and_process (self\<lparr>iterations := iterations self + 1\<rparr>) env)) rest"
| "while_true self (StopsWhileSleeping env s # rest) =
     Some (after (check_and_process (self\<lparr>iterations := iterations self + 1\<rparr>) env), s)"
| "while_true self (StopsBeforeCheck s # rest) =
     Some (self\<lparr>iterations := iterations self + 1\<rparr>, s)"

text \<open>The \<^verbatim>\<open>finally\<close> of lines 402 to 404.\<close>

definition finally_disconnect :: "worker \<Rightarrow> worker" where
  "finally_disconnect self =
     (case sql_conn self of
        None \<Rightarrow> self
      | Some c \<Rightarrow> self\<lparr>sql_conn := Some (c\<lparr>connected := False\<rparr>)\<rparr>)"

datatype exit_kind = InitFailed | StoppedByUser | Raised

text \<open>
  \<^verbatim>\<open>run\<close>: a failed \<^verbatim>\<open>initialize\<close> returns at line 363, before the \<^verbatim>\<open>try\<close>; otherwise the
  loop runs inside \<^verbatim>\<open>try\<close>, \<^verbatim>\<open>except KeyboardInterrupt\<close>, \<^verbatim>\<open>finally\<close>.
\<close>

definition run :: "worker \<Rightarrow> init_env \<Rightarrow> iteration list \<Rightarrow> (worker \<times> exit_kind) option" where
  "run self ienv turns =
     (case initialize self ienv of
        (False, self1) \<Rightarrow> Some (self1, InitFailed)
      | (True, self1) \<Rightarrow>
          (case while_true self1 turns of
             None \<Rightarrow> None
           | Some (self2, KeyboardInterrupt) \<Rightarrow> Some (finally_disconnect self2, StoppedByUser)
           | Some (self2, OtherEscape) \<Rightarrow> Some (finally_disconnect self2, Raised)))"

section \<open>Example inputs\<close>

text \<open>A detection result of three rows for one variable, as the detector hands it over.\<close>

definition example_results :: frame where
  "example_results =
     \<lparr>n_rows = 3,
      cols = [''ds'' \<mapsto> TimeCol Microseconds [10000000, 20000000, 30000000],
              ''variable'' \<mapsto> StrCol [Some ''A'', Some ''A'', Some ''A''],
              ''outside_interval'' \<mapsto> BoolCol [True, False, True],
              ''high_residual'' \<mapsto> BoolCol [False, False, True],
              ''is_anomaly'' \<mapsto> BoolCol [True, False, True],
              ''anomaly_score'' \<mapsto> FloatCol [Fin 5000, NaN, Fin 12.5],
              ''prediction_error_pct'' \<mapsto> FloatCol [NaN, PosInf, Fin (- 3)]]\<rparr>"

text \<open>The same result when the detector gives no \<^verbatim>\<open>anomaly_score\<close> column.\<close>

definition example_results_no_score :: frame where
  "example_results_no_score =
     example_results\<lparr>cols := (cols example_results)(''anomaly_score'' := None)\<rparr>"

text \<open>
  Three readings of variable \<open>A\<close> at 10, 20 and 30 seconds, a detector holding a model for
  \<open>A\<close> that scores every row it is given, and a worker whose watermark is 0.
\<close>

definition example_table :: "event list" where
  "example_table =
     [\<lparr>datetime = 10000000, variable_name = ''A'', val = Some 1, source_file = None\<rparr>,
      \<lparr>datetime = 20000000, variable_name = ''A'', val = Some 2, source_file = None\<rparr>,
      \<lparr>datetime = 30000000, variable_name = ''A'', val = Some 3, source_file = None\<rparr>]"

definition example_detector :: prophet_detector where
  "example_detector =
     \<lparr>models = [''A''],
      detect_anomalies_multiple = (\<lambda>df variables.
        Inr (Some \<lparr>n_rows = length (DATETIME df),
                   cols = [''ds'' \<mapsto> TimeCol Microseconds (DATETIME df),
                           ''variable'' \<mapsto> StrCol (map (\<lambda>t. Some ''A'') (DATETIME df)),
                           ''is_anomaly'' \<mapsto> BoolCol (map (\<lambda>t. False) (DATETIME df)),
                           ''anomaly_score'' \<mapsto>
                             FloatCol (map (\<lambda>t. Fin 0) (DATETIME df))]\<rparr>))\<rparr>"

definition example_worker :: worker where
  "example_worker =
     \<lparr>check_interval_minutes = 10, check_interval_seconds = 600,
      sql_conn = Some \<lparr>connected = True\<rparr>, detector = Some example_detector,
      last_processed_datetime = Some 0, total_processed = 0, total_anomalies = 0,
      iterations = 0\<rparr>"

text \<open>A cycle in which every read sees the three readings and the write succeeds.\<close>

definition example_env :: cycle_env where
  "example_env =
     \<lparr>check_view = DbTable example_table, batch_view = DbTable example_table,
      write_dataframe = (\<lambda>b. WriteTrue), max_view = DbTable example_table\<rparr>"


text \<open>
  A cycle whose first two reads see only the reading at 10 seconds, the readings at 20 and
  30 seconds being inserted before the read of line 333.
\<close>

definition late_insert_env :: cycle_env where
  "late_insert_env =
     \<lparr>check_view = DbTable [hd example_table], batch_view = DbTable [hd example_table],
      write_dataframe = (\<lambda>b. WriteTrue), max_view = DbTable example_table\<rparr>"

text \<open>A worker whose only model is for a variable the table does not hold.\<close>

definition other_worker :: worker where
  "other_worker = example_worker\<lparr>detector := Some (example_detector\<lparr>models := [''Z'']\<rparr>)\<rparr>"

text \<open>A worker whose detector returns an empty result: nothing scored, no anomaly found.\<close>

definition silent_worker :: worker where
  "silent_worker =
     example_worker\<lparr>detector := Some \<lparr>models = [''A''],
        detect_anomalies_multiple = (\<lambda>df variables.
          Inr (Some \<lparr>n_rows = 0, cols = Map.empty\<rparr>))\<rparr>\<rparr>"


text \<open>And one whose detector gives every column but \<^verbatim>\<open>anomaly_score\<close>.\<close>

definition unscored_worker :: worker where
  "unscored_worker =
     example_worker\<lparr>detector := Some \<lparr>models = [''A''],
        detect_anomalies_multiple = (\<lambda>df variables.
          Inr (Some \<lparr>n_rows = length (DATETIME df),
                     cols = [''ds'' \<mapsto> TimeCol Microseconds (DATETIME df),
                             ''variable'' \<mapsto> StrCol (map (\<lambda>t. Some ''A'') (DATETIME df)),
                             ''is_anomaly'' \<mapsto>
                               BoolCol (map (\<lambda>t. False) (DATETIME df))]\<rparr>))\<rparr>\<rparr>"

text \<open>A start-up that finds models, connects, and finds the output table empty.\<close>

definition example_init_env :: init_env where
  "example_init_env =
     \<lparr>models_found = True, connect_ok = True, create_table_raises = False,
      new_detector = example_detector\<lparr>models := []\<rparr>, load_models = Inr example_detector,
      output_ds = Inr (Some []), now = 86400000000\<rparr>"

section \<open>Properties of the reshaping\<close>

lemma first_valid_Some_mem: "first_valid xs = Some x \<Longrightarrow> Some x \<in> set xs"
  by (induction xs rule: first_valid.induct) auto

lemma first_valid_None_iff: "first_valid xs = None \<longleftrightarrow> (\<forall>x \<in> set xs. x = None)"
  by (induction xs rule: first_valid.induct) auto

lemma first_valid_skip: "\<forall>x \<in> set pre. x = None \<Longrightarrow> first_valid (pre @ ys) = first_valid ys"
  by (induction pre) auto

lemma group_first_None_iff:
  "group_first df t v = None \<longleftrightarrow>
     (\<forall>e \<in> set df. datetime e = t \<and> variable_name e = v \<longrightarrow> val e = None)"
  by (auto simp: group_first_def first_valid_None_iff)

lemma wide_index_set:
  "set (DATETIME (pivot_table_first df)) = datetime ` {e \<in> set df. val e \<noteq> None}"
  by (auto simp: pivot_table_first_def Let_def)

lemma wide_names_set:
  "set (map fst (var_columns (pivot_table_first df))) =
     variable_name ` {e \<in> set df. val e \<noteq> None}"
  by (auto simp: pivot_table_first_def Let_def comp_def)

lemma map_of_self_map:
  "map_of (map (\<lambda>k. (k, f k)) ks) k = (if k \<in> set ks then Some (f k) else None)"
  by (induction ks) auto

lemma zip_self_map: "zip ks (map f ks) = map (\<lambda>k. (k, f k)) ks"
  by (induction ks) auto

text \<open>Every cell of the pivot table is the first present value of its group.\<close>

lemma wide_at_pivot: "wide_at (pivot_table_first df) t v = group_first df t v"
proof (cases "group_first df t v")
  case None
  then show ?thesis
    by (auto simp: wide_at_def pivot_table_first_def Let_def map_of_self_map zip_self_map
             split: option.splits)
next
  case (Some x)
  then obtain e where e: "e \<in> set df" "datetime e = t" "variable_name e = v" "val e \<noteq> None"
    using group_first_None_iff[of df t v] by auto
  then have "t \<in> set (DATETIME (pivot_table_first df))"
    and "v \<in> set (map fst (var_columns (pivot_table_first df)))"
    unfolding wide_index_set wide_names_set by auto
  then show ?thesis
    by (auto simp: wide_at_def pivot_table_first_def Let_def map_of_self_map zip_self_map
          comp_def split: option.splits)
qed

text \<open>Widening returns the pivot table unless a variable with a value is called \<^verbatim>\<open>datetime\<close>.\<close>

lemma convert_returns:
  assumes "\<forall>e \<in> set df. variable_name e \<noteq> ''datetime''"
  shows "convert_long_to_wide df = Inr (pivot_table_first df)"
proof -
  have "''datetime'' \<notin> set (map fst (var_columns (pivot_table_first df)))"
    unfolding wide_names_set using assms by auto
  then show ?thesis by (simp add: convert_long_to_wide_def Let_def)
qed

lemma widened_at_returns:
  assumes "\<forall>e \<in> set df. variable_name e \<noteq> ''datetime''"
  shows "widened_at df t v = Inr (group_first df t v)"
  by (simp add: widened_at_def convert_returns[OF assms] wide_at_pivot)

text \<open>
  C4, as the code has it. For every input sequence in which no variable is called
  \<^verbatim>\<open>datetime\<close> or \<^verbatim>\<open>DATETIME\<close>, widening returns a frame, and in it the cell of a
  \<open>(timestamp, variable)\<close> pair holds the first value in input order that is not null: if an
  event carries a value and every earlier event of the same pair is null, that value is the
  one kept, whatever follows; a cell is missing when every value of its pair is null. (Being
  a function of its input, the result is the same on every run.)
\<close>

theorem widen_keeps_first_present:
  assumes "df_long = pre @ e # post" and "val e = Some x"
    and "\<forall>e' \<in> set pre. key e' = key e \<longrightarrow> val e' = None"
    and "\<forall>e' \<in> set df_long. variable_name e' \<noteq> ''datetime'' \<and> variable_name e' \<noteq> ''DATETIME''"
  shows "widened_at df_long (datetime e) (variable_name e) = Inr (Some x)
       \<and> (\<forall>t v. (\<forall>e' \<in> set df_long. key e' = (t, v) \<longrightarrow> val e' = None) \<longrightarrow>
                  widened_at df_long t v = Inr None)"
proof
  from assms(4) have w: "widened_at df_long t v = Inr (group_first df_long t v)" for t v
    by (intro widened_at_returns) simp
  let ?p = "\<lambda>e'. datetime e' = datetime e \<and> variable_name e' = variable_name e"
  have "\<forall>y \<in> set (map val (filter ?p pre)). y = None"
    using assms(3) by (auto simp: key_def)
  then have "first_valid (map val (filter ?p pre) @ map val (filter ?p (e # post))) = Some x"
    using assms(2) by (simp add: first_valid_skip)
  then show "widened_at df_long (datetime e) (variable_name e) = Inr (Some x)"
    unfolding w by (simp add: group_first_def assms(1))
next
  from assms(4) have w: "widened_at df_long t v = Inr (group_first df_long t v)" for t v
    by (intro widened_at_returns) simp
  show "\<forall>t v. (\<forall>e' \<in> set df_long. key e' = (t, v) \<longrightarrow> val e' = None) \<longrightarrow>
                widened_at df_long t v = Inr None"
    unfolding w by (simp add: group_first_None_iff key_def)
qed

text \<open>
  The scenario \<open>[(t1, A, 10), (t1, A, 99), (t1, B, 5)]\<close> with a null reading of
  \<open>(t1, A)\<close> in front: the cell of \<open>(t1, A)\<close> holds 10.
\<close>

theorem widen_keeps_first_present_witness:
  "widened_at
      [\<lparr>datetime = 1, variable_name = ''A'', val = None, source_file = None\<rparr>,
       \<lparr>datetime = 1, variable_name = ''A'', val = Some 10, source_file = None\<rparr>,
       \<lparr>datetime = 1, variable_name = ''A'', val = Some 99, source_file = None\<rparr>,
       \<lparr>datetime = 1, variable_name = ''B'', val = Some 5, source_file = None\<rparr>] 1 ''A''
   = Inr (Some 10)"
  using widen_keeps_first_present
    [of _ "[\<lparr>datetime = 1, variable_name = ''A'', val = None, source_file = None\<rparr>]"
        "\<lparr>datetime = 1, variable_name = ''A'', val = Some 10, source_file = None\<rparr>"
        "[\<lparr>datetime = 1, variable_name = ''A'', val = Some 99, source_file = None\<rparr>,
          \<lparr>datetime = 1, variable_name = ''B'', val = Some 5, source_file = None\<rparr>]" 10]
  by simp

text \<open>
  C4 as stated fails when the first value of a pair is null: the first event of
  \<open>(1, A)\<close> is null, and the cell holds the 5 of the second.
\<close>

theorem widen_first_null_not_kept:
  "val (hd [\<lparr>datetime = 1, variable_name = ''A'', val = None, source_file = None\<rparr>,
            \<lparr>datetime = 1, variable_name = ''A'', val = Some 5, source_file = None\<rparr>]) = None
   \<and> widened_at
        [\<lparr>datetime = 1, variable_name = ''A'', val = None, source_file = None\<rparr>,
         \<lparr>datetime = 1, variable_name = ''A'', val = Some 5, source_file = None\<rparr>] 1 ''A''
     = Inr (Some 5)"
  by (simp add: widened_at_returns group_first_def)

text \<open>
  The names left out above: with a variable called \<^verbatim>\<open>datetime\<close>, widening raises; with one
  called \<^verbatim>\<open>value\<close>, narrowing raises.
\<close>

lemma widening_raises_on_datetime:
  "convert_long_to_wide
     [\<lparr>datetime = 1, variable_name = ''datetime'', val = Some 5, source_file = None\<rparr>]
   = Inl ValueError"
  by (simp add: convert_long_to_wide_def pivot_table_first_def)

lemma narrowing_raises_on_value:
  "widen_then_narrow
     [\<lparr>datetime = 1, variable_name = ''value'', val = Some 5, source_file = None\<rparr>] None
   = Inl ValueError"
  by (simp add: widen_then_narrow_def convert_long_to_wide_def pivot_table_first_def
        transform_data_to_long_format_def wide_columns_def)

lemma concat_map_product:
  "concat (map (\<lambda>v. map (\<lambda>t. f t v) ts) vs) = map (\<lambda>(v, t). f t v) (List.product vs ts)"
  by (induction vs) (auto simp: comp_def)

lemma melt_pivot:
  "melt (pivot_table_first df) =
     map (\<lambda>(v, t). (t, v, group_first df t v))
       (List.product (map fst (var_columns (pivot_table_first df)))
                     (DATETIME (pivot_table_first df)))"
  by (simp add: melt_def pivot_table_first_def Let_def comp_def zip_self_map
        concat_map_product[symmetric])

lemma triples_transform:
  assumes "transform_data_to_long_format df src = Inr out"
  shows "map triple out = filter (\<lambda>(t, v, x). x \<noteq> None) (melt df)"
proof -
  have "map triple (filter (\<lambda>e. val e \<noteq> None) (map (\<lambda>(t, v, x).
          \<lparr>datetime = t, variable_name = v, val = x, source_file = sf\<rparr>) ms)) =
        filter (\<lambda>(t, v, x). x \<noteq> None) ms" for sf ms
    by (induction ms) (auto simp: triple_def)
  with assms show ?thesis
    by (auto simp: transform_data_to_long_format_def Let_def split: if_splits)
qed

lemma distinct_index: "distinct (DATETIME (pivot_table_first df))"
  by (simp add: pivot_table_first_def Let_def)

lemma distinct_names: "distinct (map fst (var_columns (pivot_table_first df)))"
  by (simp add: pivot_table_first_def Let_def comp_def)

lemma group_first_unique:
  assumes "distinct (map key evs)" "e \<in> set evs"
  shows "group_first evs (datetime e) (variable_name e) = val e"
proof -
  have "filter (\<lambda>e'. key e' = key e) evs = [e]"
    using assms
  proof (induction evs)
    case Nil then show ?case by simp
  next
    case (Cons a evs)
    show ?case
    proof (cases "a = e")
      case True
      then have "\<forall>e' \<in> set evs. key e' \<noteq> key e" using Cons.prems by (force simp: image_iff)
      then have "filter (\<lambda>e'. key e' = key e) evs = []" by (simp add: filter_empty_conv)
      with True show ?thesis by simp
    next
      case False
      then have "e \<in> set evs" using Cons.prems by simp
      moreover have "key a \<noteq> key e" using Cons.prems \<open>e \<in> set evs\<close> by auto
      ultimately show ?thesis using Cons by simp
    qed
  qed
  moreover have "(\<lambda>e'. datetime e' = datetime e \<and> variable_name e' = variable_name e) =
      (\<lambda>e'. key e' = key e)"
    by (auto simp: key_def)
  ultimately show ?thesis
    by (cases "val e") (simp_all add: group_first_def)
qed

text \<open>
  C8, as the code has it. For every duplicate-free set of long-form events whose values are
  all present and whose variables are not called \<^verbatim>\<open>datetime\<close>, \<^verbatim>\<open>DATETIME\<close> or \<^verbatim>\<open>value\<close>,
  widening and then narrowing returns events whose \<open>(timestamp, variable, value)\<close> triples
  are those of the input, each once, in some order; the source of each returned event is
  the argument of \<^verbatim>\<open>transform_data_to_long_format\<close>, not the event's own.
\<close>

theorem widen_narrow_roundtrip:
  assumes "distinct (map key evs)" and "\<forall>e \<in> set evs. val e \<noteq> None"
    and "\<forall>e \<in> set evs. variable_name e \<notin> {''datetime'', ''DATETIME'', ''value''}"
  shows "\<exists>out. widen_then_narrow evs src = Inr out
         \<and> set (map triple out) = set (map triple evs)
         \<and> distinct (map triple out)
         \<and> (\<forall>e \<in> set out.
               source_file e = (case src of None \<Rightarrow> None
                                | Some s \<Rightarrow> if s = [] then None else Some s))"
proof -
  let ?w = "pivot_table_first evs"
  let ?S = "{(t, v, x). t \<in> datetime ` set evs \<and> v \<in> variable_name ` set evs \<and>
                        x = group_first evs t v \<and> x \<noteq> None}"
  have idx: "set (DATETIME ?w) = datetime ` set evs"
    using assms(2) by (auto simp: wide_index_set)
  have nms: "set (map fst (var_columns ?w)) = variable_name ` set evs"
    unfolding wide_names_set using assms(2) by auto
  from assms(3) have c: "convert_long_to_wide evs = Inr ?w"
    by (intro convert_returns) auto
  from assms(3) nms have "''value'' \<notin> set (wide_columns ?w)"
    and "''DATETIME'' \<notin> set (map fst (var_columns ?w))"
    unfolding wide_columns_def by auto
  then obtain out where t: "transform_data_to_long_format ?w src = Inr out"
    by (simp add: transform_data_to_long_format_def Let_def)
  with c have r: "widen_then_narrow evs src = Inr out"
    by (simp add: widen_then_narrow_def)
  have "set (map triple out) = ?S"
    unfolding triples_transform[OF t] melt_pivot using idx nms by (auto simp: image_iff)
  also have "\<dots> = set (map triple evs)"
  proof (intro set_eqI iffI)
    fix p assume "p \<in> ?S"
    then obtain t v x where p: "p = (t, v, x)" "x = group_first evs t v" "x \<noteq> None" by auto
    then obtain e where e: "e \<in> set evs" "datetime e = t" "variable_name e = v"
      using group_first_None_iff[of evs t v] by auto
    then have "group_first evs t v = val e"
      using group_first_unique[OF assms(1), of e] by simp
    with p e show "p \<in> set (map triple evs)" by (force simp: triple_def)
  next
    fix p assume "p \<in> set (map triple evs)"
    then obtain e where e: "e \<in> set evs" "p = triple e" by auto
    then show "p \<in> ?S"
      using group_first_unique[OF assms(1), of e] assms(2) by (auto simp: triple_def)
  qed
  finally have s: "set (map triple out) = set (map triple evs)" .
  have "distinct (List.product (map fst (var_columns ?w)) (DATETIME ?w))"
    by (rule distinct_product[OF distinct_names distinct_index])
  then have "distinct (melt ?w)"
    unfolding melt_pivot by (auto simp: distinct_map inj_on_def)
  then have d: "distinct (map triple out)"
    unfolding triples_transform[OF t] by (rule distinct_filter)
  have f: "\<forall>e \<in> set out. source_file e = (case src of None \<Rightarrow> None
                                          | Some s \<Rightarrow> if s = [] then None else Some s)"
    using t by (auto simp: transform_data_to_long_format_def Let_def split: if_splits)
  from r s d f show ?thesis by blast
qed

theorem widen_narrow_roundtrip_witness:
  "\<exists>out. widen_then_narrow
      [\<lparr>datetime = 2, variable_name = ''B'', val = Some 5, source_file = None\<rparr>,
       \<lparr>datetime = 1, variable_name = ''A'', val = Some 10, source_file = None\<rparr>] None
       = Inr out
     \<and> set (map triple out) = {(1, ''A'', Some 10), (2, ''B'', Some 5)}"
proof -
  let ?evs = "[\<lparr>datetime = 2, variable_name = ''B'', val = Some 5, source_file = None\<rparr>,
               \<lparr>datetime = 1, variable_name = ''A'', val = Some 10, source_file = None\<rparr>]"
  have d: "distinct (map key ?evs)" by (simp add: key_def)
  have v: "\<forall>e \<in> set ?evs. val e \<noteq> None" by simp
  have n: "\<forall>e \<in> set ?evs. variable_name e \<notin> {''datetime'', ''DATETIME'', ''value''}" by simp
  from widen_narrow_roundtrip[OF d v n, of None] obtain out where
    "widen_then_narrow ?evs None = Inr out" "set (map triple out) = set (map triple ?evs)"
    by blast
  then show ?thesis by (auto simp: triple_def)
qed

text \<open>
  C8 as stated fails on an event whose value is null: the set is duplicate-free, and the
  round trip gives back nothing. It fails on an event that has a source as well: what
  comes back has the source given to the narrowing (here none), so the events themselves
  do not come back, only their triples.
\<close>

theorem roundtrip_loses_null_event:
  "distinct (map key [\<lparr>datetime = 1, variable_name = ''A'', val = None, source_file = None\<rparr>])
   \<and> widen_then_narrow
        [\<lparr>datetime = 1, variable_name = ''A'', val = None, source_file = None\<rparr>] None = Inr []
   \<and> widen_then_narrow
        [\<lparr>datetime = 1, variable_name = ''A'', val = Some 10, source_file = Some ''f''\<rparr>] None
       = Inr [\<lparr>datetime = 1, variable_name = ''A'', val = Some 10, source_file = None\<rparr>]"
  by (simp add: widen_then_narrow_def transform_data_to_long_format_def
        convert_long_to_wide_def pivot_table_first_def melt_def wide_columns_def
        group_first_def)

section \<open>Properties of the sanitizing steps\<close>

lemma astype_int_stable: "astype_int c = Inr c' \<Longrightarrow> astype_int c' = Inr c'"
  by (auto simp: astype_int_def split: column.splits if_splits sum.splits)

lemma clip_fill_range:
  "0 \<le> u \<Longrightarrow> \<exists>v. clip_cell 0 u (fillna_cell 0 x) = Fin v \<and> 0 \<le> v \<and> v \<le> u"
  by (cases x) (auto simp: clip_cell_def fillna_cell_def)

lemma clip_fill_fixed:
  "0 \<le> v \<Longrightarrow> v \<le> u \<Longrightarrow> clip_cell 0 u (fillna_cell 0 (Fin v)) = Fin v"
  by (auto simp: clip_cell_def fillna_cell_def)

lemma clip_fill_idem:
  "0 \<le> u \<Longrightarrow> clip_cell 0 u (fillna_cell 0 (clip_cell 0 u (fillna_cell 0 x))) =
     clip_cell 0 u (fillna_cell 0 x)"
  using clip_fill_range[of u x] clip_fill_fixed[of _ u] by auto

lemma replace_inf_clipped:
  "0 \<le> u \<Longrightarrow> replace_inf_cell (clip_cell 0 u (fillna_cell 0 x)) = clip_cell 0 u (fillna_cell 0 x)"
  using clip_fill_range[of u x] by (auto simp: replace_inf_cell_def)

lemma fillna_Fin: "fillna_cell v (Fin r) = Fin r"
  by (simp add: fillna_cell_def)

lemma clamp_nonneg:
  "map (\<lambda>n. if n < 0 then 0 else n) (map (\<lambda>n. if n < 0 then 0 else n) ns) =
     map (\<lambda>n. if n < (0::int) then 0 else n) ns"
  by (induction ns) auto

lemma fillna_clip_stable: "fillna_clip c = Inr c' \<Longrightarrow> fillna_clip c' = Inr c'"
proof (cases c)
  case (FloatCol xs)
  assume "fillna_clip c = Inr c'"
  with FloatCol show ?thesis
    by (auto simp: fillna_clip_def clip_fill_idem comp_def)
next
  case (IntCol ns)
  assume a: "fillna_clip c = Inr c'"
  let ?ns1 = "map (\<lambda>n. if n < 0 then 0 else n) ns"
  show ?thesis
  proof (cases "list_ex (\<lambda>n. 999.99 < real_of_int n) ?ns1")
    case True
    with a IntCol
    have "c' = FloatCol (map (\<lambda>n. clip_cell 0 999.99 (fillna_cell 0 (Fin (real_of_int n)))) ?ns1)"
      by (simp add: fillna_clip_def Let_def fillna_Fin)
    then show ?thesis
      by (simp add: fillna_clip_def clip_fill_idem comp_def)
  next
    case False
    with a IntCol have c': "c' = IntCol ?ns1"
      by (simp add: fillna_clip_def Let_def)
    have "fillna_clip (IntCol ?ns1) = Inr (IntCol ?ns1)"
      unfolding fillna_clip_def column.case Let_def clamp_nonneg
      by (simp only: False if_False)
    then show ?thesis by (simp only: c')
  qed
next
  case (BoolCol bs)
  assume "fillna_clip c = Inr c'"
  with BoolCol show ?thesis by (auto simp: fillna_clip_def)
next
  case (StrCol ss)
  assume "fillna_clip c = Inr c'"
  with StrCol show ?thesis
    by (auto simp: fillna_clip_def list_ex_iff split: if_splits)
next
  case (TimeCol u ts)
  assume "fillna_clip c = Inr c'"
  with TimeCol show ?thesis by (simp add: fillna_clip_def)
qed

lemma replace_inf_after_clip: "fillna_clip c = Inr c' \<Longrightarrow> replace_inf c' = c'"
proof (cases c)
  case (FloatCol xs)
  assume "fillna_clip c = Inr c'"
  with FloatCol show ?thesis
    by (auto simp: fillna_clip_def replace_inf_def replace_inf_clipped comp_def)
next
  case (IntCol ns)
  assume a: "fillna_clip c = Inr c'"
  let ?ns1 = "map (\<lambda>n. if n < 0 then 0 else n) ns"
  show ?thesis
  proof (cases "list_ex (\<lambda>n. 999.99 < real_of_int n) ?ns1")
    case True
    with a IntCol
    have "c' = FloatCol (map (\<lambda>n. clip_cell 0 999.99 (fillna_cell 0 (Fin (real_of_int n)))) ?ns1)"
      by (simp add: fillna_clip_def Let_def fillna_Fin)
    then show ?thesis
      by (simp add: replace_inf_def replace_inf_clipped comp_def)
  next
    case False
    with a IntCol have c': "c' = IntCol ?ns1"
      by (simp add: fillna_clip_def Let_def)
    then show ?thesis by (simp add: replace_inf_def)
  qed
next
  case (BoolCol bs)
  assume "fillna_clip c = Inr c'"
  with BoolCol show ?thesis by (auto simp: fillna_clip_def replace_inf_def)
next
  case (StrCol ss)
  assume "fillna_clip c = Inr c'"
  with StrCol show ?thesis
    by (auto simp: fillna_clip_def replace_inf_def split: if_splits)
next
  case (TimeCol u ts)
  assume "fillna_clip c = Inr c'"
  with TimeCol show ?thesis by (simp add: fillna_clip_def)
qed

lemma fillna_clip_replace_stable:
  "fillna_clip (replace_inf c) = Inr c' \<Longrightarrow> fillna_clip (replace_inf c') = Inr c'"
  using replace_inf_after_clip[of "replace_inf c" c'] fillna_clip_stable[of "replace_inf c" c']
  by simp

text \<open>What sanitize does to each column, when it returns.\<close>

lemma convert_bools_cols:
  assumes "convert_bools names cs = Inr cs'"
  shows "(c \<notin> set names \<longrightarrow> cs' c = cs c)
       \<and> (cs c = None \<longrightarrow> cs' c = None)
       \<and> (\<forall>col. c \<in> set names \<longrightarrow> cs c = Some col \<longrightarrow> (\<exists>col'. astype_int col = Inr col' \<and> cs' c = Some col'))"
  using assms
proof (induction names arbitrary: cs)
  case Nil
  then show ?case by simp
next
  case (Cons n names)
  show ?case
  proof (cases "cs n")
    case None
    with Cons.prems have "convert_bools names cs = Inr cs'" by simp
    from Cons.IH[OF this] None show ?thesis by auto
  next
    case (Some col0)
    with Cons.prems obtain col1 where c1: "astype_int col0 = Inr col1"
      and r: "convert_bools names (cs(n \<mapsto> col1)) = Inr cs'"
      by (auto split: sum.splits)
    from Cons.IH[OF r] Some c1 show ?thesis
      by (auto simp: astype_int_stable split: if_splits)
  qed
qed

lemma sanitize_steps:
  assumes "sanitize results = Inr r"
  obtains cs1 cs2 where "convert_bools bool_cols (cols results) = Inr cs1"
    and "clean_anomaly_score cs1 = Inr cs2"
    and "clean_prediction_error_pct cs2 = Inr (cols r)"
    and "r = results\<lparr>cols := cols r\<rparr>"
  using assms by (auto simp: sanitize_def split: sum.splits)

lemma clean_anomaly_score_cols:
  assumes "clean_anomaly_score cs = Inr cs'"
  shows "(c \<noteq> ''anomaly_score'' \<longrightarrow> cs' c = cs c)
       \<and> (cs c = None \<longrightarrow> cs' c = None)
       \<and> (\<forall>col. c = ''anomaly_score'' \<longrightarrow> cs c = Some col \<longrightarrow>
             (\<exists>col'. fillna_clip col = Inr col' \<and> cs' c = Some col'))"
  using assms by (auto simp: clean_anomaly_score_def split: option.splits sum.splits)

lemma clean_prediction_error_pct_cols:
  assumes "clean_prediction_error_pct cs = Inr cs'"
  shows "(c \<noteq> ''prediction_error_pct'' \<longrightarrow> cs' c = cs c)
       \<and> (cs c = None \<longrightarrow> cs' c = None)
       \<and> (\<forall>col. c = ''prediction_error_pct'' \<longrightarrow> cs c = Some col \<longrightarrow>
             (\<exists>col'. fillna_clip (replace_inf col) = Inr col' \<and> cs' c = Some col'))"
  using assms by (auto simp: clean_prediction_error_pct_def split: option.splits sum.splits)

lemma sanitize_flag:
  assumes "sanitize results = Inr r" and "c \<in> set bool_cols" and "cols results c = Some col"
  shows "\<exists>col'. astype_int col = Inr col' \<and> cols r c = Some col'"
proof -
  from assms(1) obtain cs1 cs2 where s: "convert_bools bool_cols (cols results) = Inr cs1"
    "clean_anomaly_score cs1 = Inr cs2" "clean_prediction_error_pct cs2 = Inr (cols r)"
    by (rule sanitize_steps)
  from convert_bools_cols[OF s(1), of c] assms(2,3)
  obtain col' where c': "astype_int col = Inr col'" "cs1 c = Some col'" by auto
  from assms(2) have ne: "c \<noteq> ''anomaly_score''" "c \<noteq> ''prediction_error_pct''"
    by (auto simp: bool_cols_def)
  from clean_anomaly_score_cols[OF s(2), of c] ne c' have "cs2 c = Some col'" by simp
  with clean_prediction_error_pct_cols[OF s(3), of c] ne have "cols r c = Some col'" by simp
  with c' show ?thesis by blast
qed

lemma sanitize_score:
  assumes "sanitize results = Inr r" and "cols results ''anomaly_score'' = Some col"
  shows "\<exists>col'. fillna_clip col = Inr col' \<and> cols r ''anomaly_score'' = Some col'"
proof -
  from assms(1) obtain cs1 cs2 where s: "convert_bools bool_cols (cols results) = Inr cs1"
    "clean_anomaly_score cs1 = Inr cs2" "clean_prediction_error_pct cs2 = Inr (cols r)"
    by (rule sanitize_steps)
  have "''anomaly_score'' \<notin> set bool_cols" by (simp add: bool_cols_def)
  with convert_bools_cols[OF s(1), of "''anomaly_score''"] assms(2)
  have "cs1 ''anomaly_score'' = Some col" by simp
  with clean_anomaly_score_cols[OF s(2), of "''anomaly_score''"]
  obtain col' where c': "fillna_clip col = Inr col'" "cs2 ''anomaly_score'' = Some col'" by auto
  with clean_prediction_error_pct_cols[OF s(3), of "''anomaly_score''"]
  have "cols r ''anomaly_score'' = Some col'" by simp
  with c' show ?thesis by blast
qed

lemma sanitize_pct:
  assumes "sanitize results = Inr r" and "cols results ''prediction_error_pct'' = Some col"
  shows "\<exists>col'. fillna_clip (replace_inf col) = Inr col' \<and>
           cols r ''prediction_error_pct'' = Some col'"
proof -
  from assms(1) obtain cs1 cs2 where s: "convert_bools bool_cols (cols results) = Inr cs1"
    "clean_anomaly_score cs1 = Inr cs2" "clean_prediction_error_pct cs2 = Inr (cols r)"
    by (rule sanitize_steps)
  have "''prediction_error_pct'' \<notin> set bool_cols" by (simp add: bool_cols_def)
  with convert_bools_cols[OF s(1), of "''prediction_error_pct''"] assms(2)
  have "cs1 ''prediction_error_pct'' = Some col" by simp
  with clean_anomaly_score_cols[OF s(2), of "''prediction_error_pct''"]
  have "cs2 ''prediction_error_pct'' = Some col" by simp
  with clean_prediction_error_pct_cols[OF s(3), of "''prediction_error_pct''"]
  show ?thesis by simp
qed

lemma sanitize_other:
  assumes "sanitize results = Inr r" and "c \<notin> set bool_cols" and "c \<noteq> ''anomaly_score''"
    and "c \<noteq> ''prediction_error_pct''"
  shows "cols r c = cols results c"
proof -
  from assms(1) obtain cs1 cs2 where s: "convert_bools bool_cols (cols results) = Inr cs1"
    "clean_anomaly_score cs1 = Inr cs2" "clean_prediction_error_pct cs2 = Inr (cols r)"
    by (rule sanitize_steps)
  from convert_bools_cols[OF s(1), of c] clean_anomaly_score_cols[OF s(2), of c]
    clean_prediction_error_pct_cols[OF s(3), of c] assms(2-4)
  show ?thesis by simp
qed

lemma sanitize_absent:
  assumes "sanitize results = Inr r" and "cols results c = None"
  shows "cols r c = None"
proof -
  from assms(1) obtain cs1 cs2 where s: "convert_bools bool_cols (cols results) = Inr cs1"
    "clean_anomaly_score cs1 = Inr cs2" "clean_prediction_error_pct cs2 = Inr (cols r)"
    by (rule sanitize_steps)
  from convert_bools_cols[OF s(1), of c] clean_anomaly_score_cols[OF s(2), of c]
    clean_prediction_error_pct_cols[OF s(3), of c] assms(2)
  show ?thesis by simp
qed

lemma sanitize_dom:
  assumes "sanitize results = Inr r"
  shows "dom (cols r) = dom (cols results)"
proof (intro set_eqI iffI)
  fix c assume "c \<in> dom (cols r)"
  then show "c \<in> dom (cols results)"
    using sanitize_absent[OF assms, of c] by (cases "cols results c") auto
next
  fix c assume "c \<in> dom (cols results)"
  then obtain col where col: "cols results c = Some col" by auto
  consider "c \<in> set bool_cols" | "c = ''anomaly_score''" | "c = ''prediction_error_pct''"
    | "c \<notin> set bool_cols" "c \<noteq> ''anomaly_score''" "c \<noteq> ''prediction_error_pct''"
    by blast
  then show "c \<in> dom (cols r)"
  proof cases
    case 1 with sanitize_flag[OF assms _ col] show ?thesis by auto
  next
    case 2 with sanitize_score[OF assms] col show ?thesis by auto
  next
    case 3 with sanitize_pct[OF assms] col show ?thesis by auto
  next
    case 4 with sanitize_other[OF assms] col show ?thesis by auto
  qed
qed

lemma sanitize_n_rows: "sanitize results = Inr r \<Longrightarrow> n_rows r = n_rows results"
  by (auto simp: sanitize_def split: sum.splits)

lemma map_of_results_to_write:
  "map_of (results_to_write r) c = (if c \<in> set columns_to_write then cols r c else None)"
proof -
  have "map_of (map (\<lambda>col. (col, the (cols r col))) xs) c =
          (if c \<in> set xs then Some (the (cols r c)) else None)" for xs
    by (induction xs) auto
  then show ?thesis
    by (auto simp: results_to_write_def)
qed

lemma results_to_write_names:
  "map fst (results_to_write r) = filter (\<lambda>c. c \<in> dom (cols r)) columns_to_write"
  by (simp add: results_to_write_def comp_def)

lemma convert_bools_fixed:
  assumes "\<forall>c \<in> set names. \<forall>col. cs c = Some col \<longrightarrow> astype_int col = Inr col"
  shows "convert_bools names cs = Inr cs"
  using assms
proof (induction names)
  case Nil then show ?case by simp
next
  case (Cons n names)
  then show ?case by (cases "cs n") (auto simp: map_upd_triv)
qed

lemma convert_bools_error:
  assumes "convert_bools names cs = Inl e"
  shows "\<exists>c \<in> set names. \<exists>col. cs c = Some col \<and> astype_int col = Inl e"
  using assms
proof (induction names arbitrary: cs)
  case Nil then show ?case by simp
next
  case (Cons n names)
  show ?case
  proof (cases "cs n")
    case None
    with Cons.prems have "convert_bools names cs = Inl e" by simp
    from Cons.IH[OF this] show ?thesis by auto
  next
    case (Some col0)
    show ?thesis
    proof (cases "astype_int col0")
      case (Inl e')
      with Some Cons.prems show ?thesis by auto
    next
      case (Inr col1)
      with Some Cons.prems have "convert_bools names (cs(n \<mapsto> col1)) = Inl e" by simp
      from Cons.IH[OF this] obtain c col where c: "c \<in> set names"
        "(cs(n \<mapsto> col1)) c = Some col" "astype_int col = Inl e" by auto
      have "c \<noteq> n"
      proof
        assume "c = n"
        with c(2) have "col = col1" by simp
        with astype_int_stable[OF Inr] c(3) show False by simp
      qed
      with c show ?thesis by auto
    qed
  qed
qed

lemma sanitize_error:
  assumes "sanitize results = Inl e"
  shows "\<exists>c col. cols results c = Some col \<and>
           ((c \<in> set bool_cols \<and> astype_int col = Inl e)
            \<or> (c = ''anomaly_score'' \<and> fillna_clip col = Inl e)
            \<or> (c = ''prediction_error_pct'' \<and> fillna_clip (replace_inf col) = Inl e))"
proof (cases "convert_bools bool_cols (cols results)")
  case (Inl e1)
  with assms have "e1 = e" by (simp add: sanitize_def)
  with convert_bools_error[OF Inl] show ?thesis by blast
next
  case (Inr cs1)
  note b = convert_bools_cols[OF Inr]
  show ?thesis
  proof (cases "clean_anomaly_score cs1")
    case (Inl e2)
    with Inr assms have e2: "e2 = e" by (simp add: sanitize_def)
    from Inl obtain col where "cs1 ''anomaly_score'' = Some col" "fillna_clip col = Inl e2"
      by (auto simp: clean_anomaly_score_def split: option.splits sum.splits)
    moreover have "cs1 ''anomaly_score'' = cols results ''anomaly_score''"
      using b[of "''anomaly_score''"] by (simp add: bool_cols_def)
    ultimately show ?thesis using e2 by auto
  next
    case (Inr cs2)
    note a = clean_anomaly_score_cols[OF Inr]
    from Inr \<open>convert_bools bool_cols (cols results) = Inr cs1\<close> assms
    have "clean_prediction_error_pct cs2 = Inl e"
      by (simp add: sanitize_def split: sum.splits)
    then obtain col where "cs2 ''prediction_error_pct'' = Some col"
      "fillna_clip (replace_inf col) = Inl e"
      by (auto simp: clean_prediction_error_pct_def split: option.splits sum.splits)
    moreover have "cs2 ''prediction_error_pct'' = cols results ''prediction_error_pct''"
      using b[of "''prediction_error_pct''"] a[of "''prediction_error_pct''"]
      by (simp add: bool_cols_def)
    ultimately show ?thesis by auto
  qed
qed

text \<open>
  C6. Whenever the sanitizing steps return a frame, applying them to that frame returns it
  unchanged: \<open>sanitize (sanitize x) = sanitize x\<close>. (When they raise, there is no frame to
  apply them to again.)
\<close>

theorem sanitize_idempotent:
  assumes "sanitize x = Inr y"
  shows "sanitize y = Inr y"
proof -
  have flags: "\<forall>c \<in> set bool_cols. \<forall>col. cols y c = Some col \<longrightarrow> astype_int col = Inr col"
  proof (intro ballI allI impI)
    fix c col assume c: "c \<in> set bool_cols" "cols y c = Some col"
    then obtain col0 where c0: "cols x c = Some col0"
      using sanitize_absent[OF assms, of c] by (cases "cols x c") auto
    from sanitize_flag[OF assms c(1) c0] c(2) have "astype_int col0 = Inr col" by auto
    then show "astype_int col = Inr col" by (rule astype_int_stable)
  qed
  then have s1: "convert_bools bool_cols (cols y) = Inr (cols y)" by (rule convert_bools_fixed)
  have s2: "clean_anomaly_score (cols y) = Inr (cols y)"
  proof (cases "cols y ''anomaly_score''")
    case None then show ?thesis by (simp add: clean_anomaly_score_def)
  next
    case (Some col)
    then obtain col0 where c0: "cols x ''anomaly_score'' = Some col0"
      using sanitize_absent[OF assms, of "''anomaly_score''"]
      by (cases "cols x ''anomaly_score''") auto
    from sanitize_score[OF assms c0] Some have "fillna_clip col0 = Inr col" by auto
    then have "fillna_clip col = Inr col" by (rule fillna_clip_stable)
    with Some show ?thesis by (simp add: clean_anomaly_score_def map_upd_triv)
  qed
  have s3: "clean_prediction_error_pct (cols y) = Inr (cols y)"
  proof (cases "cols y ''prediction_error_pct''")
    case None then show ?thesis by (simp add: clean_prediction_error_pct_def)
  next
    case (Some col)
    then obtain col0 where c0: "cols x ''prediction_error_pct'' = Some col0"
      using sanitize_absent[OF assms, of "''prediction_error_pct''"]
      by (cases "cols x ''prediction_error_pct''") auto
    from sanitize_pct[OF assms c0] Some have "fillna_clip (replace_inf col0) = Inr col" by auto
    then have "fillna_clip (replace_inf col) = Inr col" by (rule fillna_clip_replace_stable)
    with Some show ?thesis by (simp add: clean_prediction_error_pct_def map_upd_triv)
  qed
  show ?thesis by (simp add: sanitize_def s1 s2 s3)
qed

theorem sanitize_idempotent_witness:
  "\<exists>y. sanitize example_results = Inr y \<and> sanitize y = Inr y"
proof -
  have "\<exists>y. sanitize example_results = Inr y"
    by (simp add: example_results_def sanitize_def bool_cols_def clean_anomaly_score_def
          clean_prediction_error_pct_def astype_int_def fillna_clip_def replace_inf_def)
  then obtain y where y: "sanitize example_results = Inr y" ..
  from sanitize_idempotent[OF y] y show ?thesis by blast
qed

lemma clip_fill_cases:
  "clip_cell 0 999.99 (fillna_cell 0 x) =
     (case x of NaN \<Rightarrow> Fin 0 | NegInf \<Rightarrow> Fin 0 | PosInf \<Rightarrow> Fin 999.99
              | Fin v \<Rightarrow> Fin (max 0 (min 999.99 v)))"
  by (cases x) (auto simp: clip_cell_def fillna_cell_def)

lemma clip_fill_replace_cases:
  "clip_cell 0 999.99 (fillna_cell 0 (replace_inf_cell x)) =
     (case x of NaN \<Rightarrow> Fin 0 | NegInf \<Rightarrow> Fin 0 | PosInf \<Rightarrow> Fin 0
              | Fin v \<Rightarrow> Fin (max 0 (min 999.99 v)))"
  by (cases x) (auto simp: clip_cell_def fillna_cell_def replace_inf_cell_def)

text \<open>
  C5. On a detection result whose score columns are float columns and whose three flags
  are boolean columns, the sanitizing steps do not raise, and in the frame they return (the
  one whose columns are written): a missing \<^verbatim>\<open>anomaly_score\<close> is 0 and every other one is
  saturated into \<open>[0, 999.99]\<close>; an infinite or missing \<^verbatim>\<open>prediction_error_pct\<close> is 0 and
  every other one is saturated into \<open>[0, 999.99]\<close>; each flag is the integer 1 or 0.
\<close>

theorem sanitize_fills_and_clamps:
  assumes "cols results ''anomaly_score'' = Some (FloatCol scores)"
    and "cols results ''prediction_error_pct'' = Some (FloatCol pcts)"
    and "cols results ''outside_interval'' = Some (BoolCol b1)"
    and "cols results ''high_residual'' = Some (BoolCol b2)"
    and "cols results ''is_anomaly'' = Some (BoolCol b3)"
  shows "\<exists>r. sanitize results = Inr r
    \<and> cols r ''anomaly_score'' = Some (FloatCol (map (\<lambda>x. case x of
          NaN \<Rightarrow> Fin 0 | NegInf \<Rightarrow> Fin 0 | PosInf \<Rightarrow> Fin 999.99
        | Fin v \<Rightarrow> Fin (max 0 (min 999.99 v))) scores))
    \<and> cols r ''prediction_error_pct'' = Some (FloatCol (map (\<lambda>x. case x of
          NaN \<Rightarrow> Fin 0 | NegInf \<Rightarrow> Fin 0 | PosInf \<Rightarrow> Fin 0
        | Fin v \<Rightarrow> Fin (max 0 (min 999.99 v))) pcts))
    \<and> cols r ''outside_interval'' = Some (IntCol (map (\<lambda>b. if b then 1 else 0) b1))
    \<and> cols r ''high_residual'' = Some (IntCol (map (\<lambda>b. if b then 1 else 0) b2))
    \<and> cols r ''is_anomaly'' = Some (IntCol (map (\<lambda>b. if b then 1 else 0) b3))
    \<and> map_of (results_to_write r) ''anomaly_score'' = cols r ''anomaly_score''
    \<and> map_of (results_to_write r) ''prediction_error_pct'' = cols r ''prediction_error_pct''"
proof -
  have b: "''outside_interval'' \<in> set bool_cols" "''high_residual'' \<in> set bool_cols"
    "''is_anomaly'' \<in> set bool_cols"
    by (simp_all add: bool_cols_def)
  have a1: "astype_int (BoolCol bs) = Inr (IntCol (map (\<lambda>b. if b then 1 else 0) bs))" for bs
    by (simp add: astype_int_def)
  have a2: "fillna_clip (FloatCol xs) =
      Inr (FloatCol (map (\<lambda>x. clip_cell 0 999.99 (fillna_cell 0 x)) xs))" for xs
    by (simp add: fillna_clip_def)
  have a3: "fillna_clip (replace_inf (FloatCol xs)) =
      Inr (FloatCol (map (\<lambda>x. clip_cell 0 999.99 (fillna_cell 0 (replace_inf_cell x))) xs))"
    for xs
    by (simp add: fillna_clip_def replace_inf_def comp_def)
  have "sanitize results \<noteq> Inl e" for e
  proof
    assume "sanitize results = Inl e"
    from sanitize_error[OF this] obtain c col where c: "cols results c = Some col"
      "(c \<in> set bool_cols \<and> astype_int col = Inl e)
        \<or> (c = ''anomaly_score'' \<and> fillna_clip col = Inl e)
        \<or> (c = ''prediction_error_pct'' \<and> fillna_clip (replace_inf col) = Inl e)"
      by blast
    from c(2) show False
    proof (elim disjE conjE)
      assume "c \<in> set bool_cols" "astype_int col = Inl e"
      then show False using c(1) assms(3-5) a1 by (auto simp: bool_cols_def)
    next
      assume "c = ''anomaly_score''" "fillna_clip col = Inl e"
      then show False using c(1) assms(1) a2[of scores] by auto
    next
      assume "c = ''prediction_error_pct''" "fillna_clip (replace_inf col) = Inl e"
      then show False using c(1) assms(2) a3[of pcts] by auto
    qed
  qed
  then obtain r where r: "sanitize results = Inr r"
    by (cases "sanitize results") auto
  have sc: "cols r ''anomaly_score'' =
      Some (FloatCol (map (\<lambda>x. clip_cell 0 999.99 (fillna_cell 0 x)) scores))"
    using sanitize_score[OF r assms(1)] a2[of scores] by auto
  have pc: "cols r ''prediction_error_pct'' =
      Some (FloatCol (map (\<lambda>x. clip_cell 0 999.99 (fillna_cell 0 (replace_inf_cell x))) pcts))"
    using sanitize_pct[OF r assms(2)] a3[of pcts] by auto
  have f1: "cols r ''outside_interval'' = Some (IntCol (map (\<lambda>b. if b then 1 else 0) b1))"
    using sanitize_flag[OF r b(1) assms(3)] a1[of b1] by auto
  have f2: "cols r ''high_residual'' = Some (IntCol (map (\<lambda>b. if b then 1 else 0) b2))"
    using sanitize_flag[OF r b(2) assms(4)] a1[of b2] by auto
  have f3: "cols r ''is_anomaly'' = Some (IntCol (map (\<lambda>b. if b then 1 else 0) b3))"
    using sanitize_flag[OF r b(3) assms(5)] a1[of b3] by auto
  have w: "map_of (results_to_write r) ''anomaly_score'' = cols r ''anomaly_score''"
    "map_of (results_to_write r) ''prediction_error_pct'' = cols r ''prediction_error_pct''"
    by (simp_all add: map_of_results_to_write columns_to_write_def)
  have sc': "cols r ''anomaly_score'' = Some (FloatCol (map (\<lambda>x. case x of
          NaN \<Rightarrow> Fin 0 | NegInf \<Rightarrow> Fin 0 | PosInf \<Rightarrow> Fin 999.99
        | Fin v \<Rightarrow> Fin (max 0 (min 999.99 v))) scores))"
    using sc by (simp only: clip_fill_cases)
  have pc': "cols r ''prediction_error_pct'' = Some (FloatCol (map (\<lambda>x. case x of
          NaN \<Rightarrow> Fin 0 | NegInf \<Rightarrow> Fin 0 | PosInf \<Rightarrow> Fin 0
        | Fin v \<Rightarrow> Fin (max 0 (min 999.99 v))) pcts))"
    using pc by (simp only: clip_fill_replace_cases)
  show ?thesis
    by (intro exI[of _ r] conjI r sc' pc' f1 f2 f3 w)
qed

text \<open>A score of 5000 becomes 999.99; a missing and an infinite percentage become 0.\<close>

theorem sanitize_fills_and_clamps_witness:
  "\<exists>r. sanitize example_results = Inr r
     \<and> cols r ''anomaly_score'' = Some (FloatCol [Fin 999.99, Fin 0, Fin 12.5])
     \<and> cols r ''prediction_error_pct'' = Some (FloatCol [Fin 0, Fin 0, Fin 0])
     \<and> cols r ''is_anomaly'' = Some (IntCol [1, 0, 1])"
  using sanitize_fills_and_clamps[of example_results "[Fin 5000, NaN, Fin 12.5]"
      "[NaN, PosInf, Fin (- 3)]" "[True, False, True]" "[False, False, True]"
      "[True, False, True]"]
  by (auto simp: example_results_def)

section \<open>Properties of one processing pass\<close>

lemma add_source_file_cols:
  assumes "add_source_file df_long results = Inr r1" and "c \<noteq> ''source_file''"
  shows "cols r1 c = cols results c"
  using assms by (auto simp: add_source_file_def split: if_splits sum.splits)

lemma detect_and_write_calls:
  assumes "call \<in> set (fst (detect_and_write w det df_long df_wide vars n))"
  obtains results0 r1 r where "detect_anomalies_multiple det df_wide vars = Inr (Some results0)"
    and "add_source_file df_long results0 = Inr r1" and "sanitize r1 = Inr r"
    and "fst call = results_to_write r"
  using assms
  by (auto simp: detect_and_write_def Let_def
           split: sum.splits option.splits if_splits write_outcome.splits)

text \<open>
  When the detection result lacks one of the three flags, \<^verbatim>\<open>anomaly_score\<close> or
  \<^verbatim>\<open>prediction_error_pct\<close>: the sanitizing steps leave the column absent (it is not created
  or filled in) and it is not among the columns selected for writing; if the steps raise,
  the exception comes from a column that is present, never from the absent one; and no
  batch handed to \<^verbatim>\<open>write_dataframe\<close> for that result carries the column.
\<close>

lemma absent_column_is_skipped:
  assumes "c \<in> set bool_cols \<union> {''anomaly_score'', ''prediction_error_pct''}"
    and "cols results c = None"
  shows "(\<forall>r. sanitize results = Inr r \<longrightarrow>
            cols r c = None \<and> c \<notin> fst ` set (results_to_write r))
       \<and> (\<forall>e. sanitize results = Inl e \<longrightarrow>
            (\<exists>c' col. c' \<noteq> c \<and> cols results c' = Some col \<and>
               (astype_int col = Inl e \<or> fillna_clip col = Inl e \<or>
                fillna_clip (replace_inf col) = Inl e)))
       \<and> (\<forall>w det df_long df_wide vars n.
            detect_anomalies_multiple det df_wide vars = Inr (Some results) \<longrightarrow>
            (\<forall>call \<in> set (fst (detect_and_write w det df_long df_wide vars n)).
               c \<notin> fst ` set (fst call)))"
proof (intro conjI allI impI ballI)
  fix r assume r: "sanitize results = Inr r"
  show "cols r c = None" by (rule sanitize_absent[OF r assms(2)])
  then have "c \<notin> set (map fst (results_to_write r))"
    unfolding results_to_write_names by auto
  then show "c \<notin> fst ` set (results_to_write r)" by simp
next
  fix e assume "sanitize results = Inl e"
  from sanitize_error[OF this] obtain c' col where c': "cols results c' = Some col"
    "(c' \<in> set bool_cols \<and> astype_int col = Inl e)
      \<or> (c' = ''anomaly_score'' \<and> fillna_clip col = Inl e)
      \<or> (c' = ''prediction_error_pct'' \<and> fillna_clip (replace_inf col) = Inl e)"
    by blast
  from c'(1) assms(2) have "c' \<noteq> c" by auto
  with c' show "\<exists>c' col. c' \<noteq> c \<and> cols results c' = Some col \<and>
      (astype_int col = Inl e \<or> fillna_clip col = Inl e \<or>
       fillna_clip (replace_inf col) = Inl e)"
    by blast
next
  fix w det df_long df_wide vars n call
  assume d: "detect_anomalies_multiple det df_wide vars = Inr (Some results)"
    and call: "call \<in> set (fst (detect_and_write w det df_long df_wide vars n))"
  from call obtain results0 r1 r where
    o: "detect_anomalies_multiple det df_wide vars = Inr (Some results0)"
      "add_source_file df_long results0 = Inr r1" "sanitize r1 = Inr r"
      "fst call = results_to_write r"
    by (rule detect_and_write_calls)
  from o(1) d have "results0 = results" by simp
  moreover from assms(1) have "c \<noteq> ''source_file''" by (auto simp: bool_cols_def)
  ultimately have "cols r1 c = None" using add_source_file_cols[OF o(2)] assms(2) by simp
  then have "cols r c = None" by (rule sanitize_absent[OF o(3)])
  then have "c \<notin> set (map fst (results_to_write r))"
    unfolding results_to_write_names by auto
  with o(4) show "c \<notin> fst ` set (fst call)" by simp
qed

text \<open>
  Past the column selection, line 231 reads \<^verbatim>\<open>results['is_anomaly']\<close> without a test: when
  that flag is absent and the write has succeeded, the read raises \<^verbatim>\<open>KeyError\<close> inside the
  \<^verbatim>\<open>try\<close>, after the batch was written.
\<close>

lemma missing_is_anomaly_raises_after_write:
  assumes "detect_anomalies_multiple det df_wide vars = Inr (Some results0)"
    and "n_rows results0 \<noteq> 0"
    and "add_source_file df_long results0 = Inr r1" and "sanitize r1 = Inr r"
    and "cols results0 ''is_anomaly'' = None"
    and "w (results_to_write r) = WriteTrue"
  shows "detect_and_write w det df_long df_wide vars n =
           ([(results_to_write r, WriteTrue)], Inl KeyError)"
proof -
  have "cols r1 ''is_anomaly'' = None"
    using add_source_file_cols[OF assms(3), of "''is_anomaly''"] assms(5) by simp
  then have "cols r ''is_anomaly'' = None" by (rule sanitize_absent[OF assms(4)])
  then show ?thesis
    using assms(1-4,6) by (simp add: detect_and_write_def Let_def)
qed


text \<open>
  The same cycle when the detection result lacks \<^verbatim>\<open>anomaly_score\<close> instead: the batch is
  written without that column and the cycle completes.
\<close>

lemma missing_anomaly_score_is_skipped:
  "map (\<lambda>(b, w). (map fst b, w)) (written (check_and_process unscored_worker example_env)) =
     [([''ds'', ''is_anomaly'', ''variable'', ''source_file''], WriteTrue)]
   \<and> processed (check_and_process unscored_worker example_env)
   \<and> last_processed_datetime (after (check_and_process unscored_worker example_env)) =
       Some 30000000"
  by code_simp

text \<open>The outcomes of one pass: either detection was not reached, or it was.\<close>

lemma process_cases:
  obtains (no_detection)
      "write_calls (process_new_anomalies v w d since) = []"
      "\<forall>r. ret (process_new_anomalies v w d since) = Inr r \<longrightarrow> r = (Count 0, 0)"
    | (detection) det df_long df_wide ws res where
      "d = Some det" "get_new_data_from_sql v since = Inr (Some df_long)"
      "convert_long_to_wide df_long = Inr df_wide"
      "filter (\<lambda>x. x \<in> set (wide_columns df_wide)) (models det) \<noteq> []"
      "detect_and_write w det df_long df_wide
         (filter (\<lambda>x. x \<in> set (wide_columns df_wide)) (models det))
         (datetime_nunique df_wide) = (ws, res)"
      "write_calls (process_new_anomalies v w d since) = ws"
      "ret (process_new_anomalies v w d since) =
         (case res of Inl e \<Rightarrow> Inr (Count 0, 0) | Inr r \<Rightarrow> Inr r)"
      "\<forall>m k. AdvertenciaNoHayVariablesComunes m k
               \<notin> set (console (process_new_anomalies v w d since))"
proof -
  let ?P = "process_new_anomalies v w d since"
  show ?thesis
  proof (cases "get_new_data_from_sql v since")
    case (Inl e)
    then have "write_calls ?P = []" "\<forall>r. ret ?P = Inr r \<longrightarrow> r = (Count 0, 0)"
      by (simp_all add: process_new_anomalies_def)
    then show ?thesis by (rule no_detection)
  next
    case (Inr opt)
    show ?thesis
    proof (cases opt)
      case None
      with Inr have "write_calls ?P = []" "\<forall>r. ret ?P = Inr r \<longrightarrow> r = (Count 0, 0)"
        by (simp_all add: process_new_anomalies_def)
      then show ?thesis by (rule no_detection)
    next
      case (Some df_long)
      note g = Inr Some
      show ?thesis
      proof (cases "convert_long_to_wide df_long")
        case (Inl e)
        with g have "write_calls ?P = []" "\<forall>r. ret ?P = Inr r \<longrightarrow> r = (Count 0, 0)"
          by (simp_all add: process_new_anomalies_def Let_def)
        then show ?thesis by (rule no_detection)
      next
        case cw: (Inr df_wide)
        show ?thesis
        proof (cases d)
          case None
          with g cw have "write_calls ?P = []" "\<forall>r. ret ?P = Inr r \<longrightarrow> r = (Count 0, 0)"
            by (simp_all add: process_new_anomalies_def Let_def)
          then show ?thesis by (rule no_detection)
        next
          case d: (Some det)
          let ?vars = "filter (\<lambda>x. x \<in> set (wide_columns df_wide)) (models det)"
          show ?thesis
          proof (cases "?vars = []")
            case True
            with g cw d have "write_calls ?P = []"
              "\<forall>r. ret ?P = Inr r \<longrightarrow> r = (Count 0, 0)"
              by (simp_all add: process_new_anomalies_def Let_def)
            then show ?thesis by (rule no_detection)
          next
            case False
            obtain ws res where dw: "detect_and_write w det df_long df_wide ?vars
                (datetime_nunique df_wide) = (ws, res)"
              by (cases "detect_and_write w det df_long df_wide ?vars
                           (datetime_nunique df_wide)")
            have "write_calls ?P = ws"
              "ret ?P = (case res of Inl e \<Rightarrow> Inr (Count 0, 0) | Inr r \<Rightarrow> Inr r)"
              "\<forall>m k. AdvertenciaNoHayVariablesComunes m k \<notin> set (console ?P)"
              using g cw d False dw
              by (cases res; simp add: process_new_anomalies_def Let_def)+
            with d g cw False dw show ?thesis
              by (intro detection[of det df_long df_wide ws res]) simp_all
          qed
        qed
      qed
    qed
  qed
qed

lemma detect_and_write_success:
  assumes "detect_and_write w det df_long df_wide vars u = (ws, Inr (nu, a))"
    and "nu \<noteq> Count 0"
  shows "\<exists>b. ws = [(b, WriteTrue)]"
  using assms
  by (auto simp: detect_and_write_def Let_def
           split: sum.splits option.splits if_splits write_outcome.splits)

lemma process_success:
  assumes "ret (process_new_anomalies v w d since) = Inr (Count n, a)" and "0 < n"
  shows "\<exists>tbl b. v = DbTable tbl \<and> new_data_query tbl since \<noteq> [] \<and>
           write_calls (process_new_anomalies v w d since) = [(b, WriteTrue)]"
proof (cases v w d since rule: process_cases)
  case no_detection
  with assms show ?thesis by simp
next
  case (detection det df_long df_wide ws res)
  from detection(2) obtain tbl where tbl: "v = DbTable tbl" "new_data_query tbl since \<noteq> []"
    by (auto simp: get_new_data_from_sql_def Let_def split: db_view.splits if_splits)
  from detection(7) assms have "res = Inr (Count n, a)"
    by (cases res) auto
  with detection(5) assms(2) detect_and_write_success[of w det df_long df_wide _ _ ws "Count n" a]
  obtain b where "ws = [(b, WriteTrue)]" by auto
  with detection(6) tbl show ?thesis by auto
qed

lemma check_and_process_cases:
  obtains (idle) "after (check_and_process self env) = self"
      "\<not> processed (check_and_process self env)"
  | (ok) conn since n a result where "sql_conn self = Some conn"
      "last_processed_datetime self = Some since"
      "ret (process_new_anomalies (batch_view env) (write_dataframe env) (detector self) since)
         = Inr (Count n, a)" "0 < n"
      "max_datetime_query (max_view env) = Inr result"
      "processed (check_and_process self env)"
      "written (check_and_process self env) =
         write_calls (process_new_anomalies (batch_view env) (write_dataframe env)
           (detector self) since)"
      "last_processed_datetime (after (check_and_process self env)) =
         (case result of None \<Rightarrow> Some since | Some new_last \<Rightarrow> Some (advance since new_last))"
      "sql_conn (after (check_and_process self env)) = sql_conn self"
proof -
  let ?c = "check_and_process self env"
  show ?thesis
  proof (cases "sql_conn self")
    case None
    then have "after ?c = self" "\<not> processed ?c" by (simp_all add: check_and_process_def)
    then show ?thesis by (rule idle)
  next
    case conn: (Some conn)
    show ?thesis
    proof (cases "last_processed_datetime self")
      case None
      with conn have "after ?c = self" "\<not> processed ?c"
        by (simp_all add: check_and_process_def)
      then show ?thesis by (rule idle)
    next
      case since: (Some since)
      let ?out = "process_new_anomalies (batch_view env) (write_dataframe env) (detector self) since"
      show ?thesis
      proof (cases "get_new_data_from_sql (check_view env) since")
        case (Inl e)
        with conn since have "after ?c = self" "\<not> processed ?c"
          by (simp_all add: check_and_process_def)
        then show ?thesis by (rule idle)
      next
        case (Inr opt)
        show ?thesis
        proof (cases opt)
          case None
          with conn since Inr have "after ?c = self" "\<not> processed ?c"
            by (simp_all add: check_and_process_def)
          then show ?thesis by (rule idle)
        next
          case (Some df0)
          note g = Inr Some
          show ?thesis
          proof (cases "ret ?out")
            case (Inl e)
            with conn since g have "after ?c = self" "\<not> processed ?c"
              by (simp_all add: check_and_process_def Let_def)
            then show ?thesis by (rule idle)
          next
            case (Inr na)
            obtain nu a where na0: "na = (nu, a)" by (cases na)
            show ?thesis
            proof (cases nu)
              case (PerColumn ns)
              with conn since g Inr na0 have "after ?c = self" "\<not> processed ?c"
                by (simp_all add: check_and_process_def Let_def)
              then show ?thesis by (rule idle)
            next
              case (Count n)
              with na0 have na: "na = (Count n, a)" by simp
              show ?thesis
            proof (cases "0 < n")
              case False
              with conn since g Inr na have "after ?c = self" "\<not> processed ?c"
                by (simp_all add: check_and_process_def Let_def)
              then show ?thesis by (rule idle)
            next
              case True
              show ?thesis
              proof (cases "max_datetime_query (max_view env)")
                case (Inl e)
                with conn since g Inr na True have "after ?c = self" "\<not> processed ?c"
                  by (simp_all add: check_and_process_def Let_def)
                then show ?thesis by (rule idle)
              next
                case m: (Inr result)
                have "processed ?c" "written ?c = write_calls ?out"
                  "last_processed_datetime (after ?c) =
                     (case result of None \<Rightarrow> Some since
                      | Some new_last \<Rightarrow> Some (advance since new_last))"
                  "sql_conn (after ?c) = sql_conn self"
                  using conn since g Inr na True m
                  by (simp_all add: check_and_process_def Let_def split: option.splits)
                with conn since Inr na True m show ?thesis
                  by (intro ok[of conn since n a result]) simp_all
              qed
            qed
            qed
          qed
        qed
      qed
    qed
  qed
qed

section \<open>Properties of the worker\<close>

lemma advance_max: "advance current new_last = max current new_last"
  by (simp add: advance_def max_def)

lemma check_watermark_mono:
  assumes "last_processed_datetime self = Some since"
  shows "\<exists>since'. last_processed_datetime (after (check_and_process self env)) = Some since'
           \<and> since \<le> since'"
proof (cases self env rule: check_and_process_cases)
  case idle
  with assms show ?thesis by simp
next
  case (ok conn since0 n a result)
  with assms have "since0 = since" by simp
  with ok(8) show ?thesis
    by (cases result) (simp_all add: advance_max)
qed

lemma while_true_watermark_mono:
  assumes "while_true self turns = Some (self', s)"
    and "last_processed_datetime self = Some since"
  shows "\<exists>since'. last_processed_datetime self' = Some since' \<and> since \<le> since'"
  using assms
proof (induction self turns arbitrary: since rule: while_true.induct)
  case (1 self)
  then show ?case by simp
next
  case (2 self env rest)
  let ?w = "self\<lparr>iterations := iterations self + 1\<rparr>"
  from "2.prems"(2) have "last_processed_datetime ?w = Some since" by simp
  from check_watermark_mono[OF this, of env] obtain s1 where
    s1: "last_processed_datetime (after (check_and_process ?w env)) = Some s1" "since \<le> s1"
    by blast
  from "2.prems"(1) have "while_true (after (check_and_process ?w env)) rest = Some (self', s)"
    by simp
  from "2.IH"[OF this s1(1)] s1(2) show ?case by force
next
  case (3 self env st rest)
  let ?w = "self\<lparr>iterations := iterations self + 1\<rparr>"
  from "3.prems"(2) have "last_processed_datetime ?w = Some since" by simp
  from check_watermark_mono[OF this, of env] "3.prems"(1) show ?case by auto
next
  case (4 self st rest)
  then show ?case by auto
qed

lemma cycles_watermark_mono:
  assumes "last_processed_datetime self = Some since"
  shows "\<exists>since'. last_processed_datetime
           (foldl (\<lambda>w env. after (check_and_process (w\<lparr>iterations := iterations w + 1\<rparr>) env))
              self envs) = Some since' \<and> since \<le> since'"
  using assms
proof (induction envs arbitrary: self since)
  case Nil
  then show ?case by simp
next
  case (Cons env envs)
  let ?w = "self\<lparr>iterations := iterations self + 1\<rparr>"
  from Cons.prems have "last_processed_datetime ?w = Some since" by simp
  from check_watermark_mono[OF this, of env] obtain s1 where
    s1: "last_processed_datetime (after (check_and_process ?w env)) = Some s1" "since \<le> s1"
    by blast
  from Cons.IH[OF s1(1)] s1(2) show ?case by force
qed

text \<open>
  C3. The step that moves the watermark (lines 337 and 338) yields the maximum of the
  current value and the candidate, so a stale candidate changes nothing. Hence the watermark
  after a cycle is never below the one before it, whatever the cycle meets; nor after any
  number of completed cycles; nor in the state in which the run loop is left.
\<close>

theorem watermark_never_regresses:
  "advance current candidate = max current candidate
   \<and> (\<forall>self env since. last_processed_datetime self = Some since \<longrightarrow>
        (\<exists>since'. last_processed_datetime (after (check_and_process self env)) = Some since'
                  \<and> since \<le> since'))
   \<and> (\<forall>self envs since. last_processed_datetime self = Some since \<longrightarrow>
        (\<exists>since'. last_processed_datetime
           (foldl (\<lambda>w env. after (check_and_process (w\<lparr>iterations := iterations w + 1\<rparr>) env))
              self envs) = Some since' \<and> since \<le> since'))
   \<and> (\<forall>self turns self' s since.
        while_true self turns = Some (self', s) \<longrightarrow> last_processed_datetime self = Some since \<longrightarrow>
        (\<exists>since'. last_processed_datetime self' = Some since' \<and> since \<le> since'))"
  using advance_max check_watermark_mono cycles_watermark_mono while_true_watermark_mono
  by blast

theorem watermark_never_regresses_witness:
  "advance 10 9 = 10
   \<and> (\<exists>since'. last_processed_datetime (after (check_and_process example_worker example_env))
         = Some since' \<and> 0 \<le> since')"
proof -
  have "last_processed_datetime example_worker = Some 0"
    by (simp add: example_worker_def)
  with watermark_never_regresses[of 10 9] show ?thesis
    by simp
qed





lemma set_new_data_query:
  "set (new_data_query tbl since) = {e \<in> set tbl. strftime_sec since < datetime e}"
  by (auto simp: new_data_query_def)



lemma strftime_sec_le: "strftime_sec t \<le> t"
  by (simp add: strftime_sec_def)

lemma max_window:
  assumes "new_data_query tbl since \<noteq> []"
  shows "max since (Max (datetime ` set tbl)) =
           max since (Max (datetime ` set (new_data_query tbl since)))"
    and "strftime_sec since < Max (datetime ` set (new_data_query tbl since))"
proof -
  let ?W = "set (new_data_query tbl since)"
  let ?M = "Max (datetime ` set tbl)" and ?MW = "Max (datetime ` ?W)"
  from assms have neW: "datetime ` ?W \<noteq> {}" by simp
  have sub: "datetime ` ?W \<subseteq> datetime ` set tbl"
    unfolding set_new_data_query by auto
  with neW have ne: "datetime ` set tbl \<noteq> {}" by auto
  have le: "?MW \<le> ?M" by (rule Max_mono[OF sub neW]) simp
  from Max_in[OF _ neW] have "?MW \<in> datetime ` ?W" by simp
  then show gt: "strftime_sec since < ?MW"
    unfolding set_new_data_query by auto
  from Max_in[OF _ ne] obtain e where e: "e \<in> set tbl" "datetime e = ?M" by auto
  show "max since ?M = max since ?MW"
  proof (cases "strftime_sec since < ?M")
    case True
    with e have "e \<in> ?W" unfolding set_new_data_query by simp
    then have "?M \<le> ?MW" using e(2) by (metis List.finite_set Max_ge finite_imageI imageI)
    with le show ?thesis by simp
  next
    case False
    with strftime_sec_le[of since] have "?M \<le> since" by simp
    with le show ?thesis by simp
  qed
qed

text \<open>
  What the code does after a cycle that reports success: the processed window is not empty,
  one batch was written with success, and the watermark is the greater of its old value and
  the greatest \<^verbatim>\<open>datetime\<close> of the input table as the query of line 333 sees it. When the
  table is the same as at the read of the batch, that is the greater of the old watermark
  and the greatest event timestamp of the processed window, and that timestamp itself when
  the old watermark is a whole second.
\<close>

lemma watermark_after_reported_success:
  assumes "last_processed_datetime self = Some since"
    and "processed (check_and_process self env)"
    and "batch_view env = DbTable tbl" and "max_view env = DbTable tbl'"
  shows "new_data_query tbl since \<noteq> []
       \<and> (\<exists>b. written (check_and_process self env) = [(b, WriteTrue)])
       \<and> (tbl' \<noteq> [] \<longrightarrow>
            last_processed_datetime (after (check_and_process self env)) =
              Some (max since (Max (datetime ` set tbl'))))
       \<and> (tbl' = tbl \<longrightarrow>
            last_processed_datetime (after (check_and_process self env)) =
              Some (max since (Max (datetime ` set (new_data_query tbl since)))))
       \<and> (tbl' = tbl \<longrightarrow> strftime_sec since = since \<longrightarrow>
            last_processed_datetime (after (check_and_process self env)) =
              Some (Max (datetime ` set (new_data_query tbl since))))"
proof (cases self env rule: check_and_process_cases)
  case idle
  with assms(2) show ?thesis by simp
next
  case (ok conn since0 n a result)
  with assms(1) have s: "since0 = since" by simp
  from process_success[OF ok(3,4)] assms(3) s obtain b where
    w: "new_data_query tbl since \<noteq> []"
    and c: "write_calls (process_new_anomalies (batch_view env) (write_dataframe env)
              (detector self) since) = [(b, WriteTrue)]"
    by auto
  from w have ne: "tbl \<noteq> []" by (auto simp: new_data_query_def)
  have g: "tbl' \<noteq> [] \<longrightarrow> last_processed_datetime (after (check_and_process self env)) =
      Some (max since (Max (datetime ` set tbl')))"
  proof
    assume "tbl' \<noteq> []"
    with ok(5) assms(4) have "result = Some (Max (datetime ` set tbl'))"
      by (simp add: max_datetime_query_def)
    with ok(8) s show "last_processed_datetime (after (check_and_process self env)) =
        Some (max since (Max (datetime ` set tbl')))"
      by (simp add: advance_max)
  qed
  note m = max_window[OF w]
  from g ne m(1) have l': "tbl' = tbl \<longrightarrow>
      last_processed_datetime (after (check_and_process self env)) =
        Some (max since (Max (datetime ` set (new_data_query tbl since))))"
    by simp
  moreover from l' m(2) have "tbl' = tbl \<longrightarrow> strftime_sec since = since \<longrightarrow>
      last_processed_datetime (after (check_and_process self env)) =
        Some (Max (datetime ` set (new_data_query tbl since)))"
    by auto
  moreover from ok(7) c s have "\<exists>b. written (check_and_process self env) = [(b, WriteTrue)]"
    by simp
  ultimately show ?thesis using w g by blast
qed

text \<open>
  C1. The claim is what the field \<^verbatim>\<open>last_processed_datetime\<close> is for, and the code breaks
  it when rows are inserted between the read of the batch (line 154) and the query of line
  333, which takes \<^verbatim>\<open>MAX(datetime)\<close> over the whole input table. Here the two polls see the
  reading at 10 seconds only, and the readings at 20 and 30 seconds are inserted before line
  333: the cycle reports success, the processed window and the written batch hold the
  reading at 10 seconds only, the watermark becomes 30 seconds, beyond the window, and the
  readings at 20 and 30 seconds, never persisted, are never polled again.
\<close>

theorem watermark_passes_unread_events:
  "processed (check_and_process example_worker late_insert_env)
   \<and> map datetime (new_data_query [hd example_table] 0) = [10000000]
   \<and> map (\<lambda>(b, w). (map_of b ''ds'', w))
        (written (check_and_process example_worker late_insert_env)) =
       [(Some (TimeCol Microseconds [10000000]), WriteTrue)]
   \<and> last_processed_datetime (after (check_and_process example_worker late_insert_env)) =
       Some 30000000
   \<and> new_data_query example_table 30000000 = []"
  by code_simp

text \<open>
  The start-up path reads the same field from the output table
  (\<^verbatim>\<open>get_last_processed_datetime\<close>, the greatest \<^verbatim>\<open>ds\<close> written): after the cycle above
  the output table holds the row at 10 seconds, and a worker started then takes 10 seconds,
  not 30, as its watermark.
\<close>

lemma restart_after_late_insert:
  "last_processed_datetime
     (snd (initialize (worker_init 10)
             (example_init_env\<lparr>output_ds := Inr (Some [10000000])\<rparr>))) = Some 10000000"
  by (simp add: initialize_def example_init_env_def worker_init_def
        get_last_processed_datetime_def)

lemma process_no_overlap:
  assumes "get_new_data_from_sql v since = Inr (Some df_long)"
    and "convert_long_to_wide df_long = Inr df_wide"
    and "\<forall>x \<in> set (models det). x \<notin> set (wide_columns df_wide)"
  shows "process_new_anomalies v w (Some det) since =
           \<lparr>ret = Inr (Count 0, 0), write_calls = [],
            console = [InfoDatosEncontrados (length df_long),
                       InfoDatosConvertidos (datetime_nunique df_wide)
                         (length (wide_columns df_wide) - 1),
                       AdvertenciaNoHayVariablesComunes (length (models det))
                         (length (wide_columns df_wide) - 1)]\<rparr>"
proof -
  from assms(3) have "filter (\<lambda>x. x \<in> set (wide_columns df_wide)) (models det) = []"
    by (simp add: filter_empty_conv)
  with assms(1,2) show ?thesis
    by (simp add: process_new_anomalies_def Let_def)
qed

lemma warning_only_without_overlap:
  assumes "AdvertenciaNoHayVariablesComunes m k \<in> set (console (process_new_anomalies v w d s))"
  shows "write_calls (process_new_anomalies v w d s) = []
       \<and> ret (process_new_anomalies v w d s) = Inr (Count 0, 0)
       \<and> (\<exists>det df df_wide. d = Some det \<and> get_new_data_from_sql v s = Inr (Some df) \<and>
            convert_long_to_wide df = Inr df_wide \<and>
            (\<forall>x \<in> set (models det). x \<notin> set (wide_columns df_wide)))"
proof -
  from assms obtain df where g: "get_new_data_from_sql v s = Inr (Some df)"
    by (cases "get_new_data_from_sql v s")
       (auto simp: process_new_anomalies_def split: option.splits)
  with assms obtain df_wide where cw: "convert_long_to_wide df = Inr df_wide"
    by (cases "convert_long_to_wide df") (auto simp: process_new_anomalies_def Let_def)
  with g assms obtain det where d: "d = Some det"
    by (cases d) (auto simp: process_new_anomalies_def Let_def)
  have no: "\<forall>x \<in> set (models det). x \<notin> set (wide_columns df_wide)"
  proof (rule ccontr)
    assume "\<not> ?thesis"
    then have ne: "filter (\<lambda>x. x \<in> set (wide_columns df_wide)) (models det) \<noteq> []"
      by (simp add: filter_empty_conv)
    show False
    proof (cases v w d s rule: process_cases)
      case no_detection
      from g cw d ne have "ret (process_new_anomalies v w d s) \<noteq> Inl e" for e
        by (cases "detect_and_write w det df df_wide
                     (filter (\<lambda>x. x \<in> set (wide_columns df_wide)) (models det))
                     (datetime_nunique df_wide)";
            simp add: process_new_anomalies_def Let_def split: sum.splits)
      moreover from g cw d ne have
        "AdvertenciaNoHayVariablesComunes m k \<notin> set (console (process_new_anomalies v w d s))"
        by (cases "detect_and_write w det df df_wide
                     (filter (\<lambda>x. x \<in> set (wide_columns df_wide)) (models det))
                     (datetime_nunique df_wide)";
            simp add: process_new_anomalies_def Let_def split: sum.splits)
      ultimately show False using assms by simp
    next
      case (detection det' df_long' df_wide' ws res)
      with assms show False by simp
    qed
  qed
  from process_no_overlap[OF g cw no, of w] d g cw no show ?thesis by auto
qed

text \<open>
  C7, as the code has it. In a cycle where both polls find new events, widening returns,
  and no model's name is a column of the wide data: nothing is handed to
  \<^verbatim>\<open>write_dataframe\<close>, the worker (its watermark included) is left as it was, and what the
  cycle prints ends with the warning that models and data share no variable, with no error
  record; a pass prints that warning only when there is no overlap. What the caller
  receives is the pair \<^verbatim>\<open>(0, 0)\<close>, and \<^verbatim>\<open>check_and_process\<close> returns false.
\<close>

theorem no_overlap_cycle:
  assumes "sql_conn self = Some conn" and "last_processed_datetime self = Some since"
    and "detector self = Some det"
    and "get_new_data_from_sql (check_view env) since = Inr (Some df0)"
    and "get_new_data_from_sql (batch_view env) since = Inr (Some df_long)"
    and "convert_long_to_wide df_long = Inr df_wide"
    and "\<forall>x \<in> set (models det). x \<notin> set (wide_columns df_wide)"
  shows "written (check_and_process self env) = []
       \<and> after (check_and_process self env) = self
       \<and> \<not> processed (check_and_process self env)
       \<and> ret (process_new_anomalies (batch_view env) (write_dataframe env) (detector self)
                since) = Inr (Count 0, 0)
       \<and> printed (check_and_process self env) =
           [InfoDatosEncontrados (length df_long),
            InfoDatosConvertidos (datetime_nunique df_wide) (length (wide_columns df_wide) - 1),
            AdvertenciaNoHayVariablesComunes (length (models det))
              (length (wide_columns df_wide) - 1)]
       \<and> (\<forall>v w d s m k.
            AdvertenciaNoHayVariablesComunes m k
              \<in> set (console (process_new_anomalies v w d s)) \<longrightarrow>
            write_calls (process_new_anomalies v w d s) = []
            \<and> ret (process_new_anomalies v w d s) = Inr (Count 0, 0)
            \<and> (\<exists>det df df_wide. d = Some det \<and> get_new_data_from_sql v s = Inr (Some df) \<and>
                 convert_long_to_wide df = Inr df_wide \<and>
                 (\<forall>x \<in> set (models det). x \<notin> set (wide_columns df_wide))))"
proof -
  note p = process_no_overlap[OF assms(5,6,7), of "write_dataframe env"]
  have "written (check_and_process self env) = []"
    "after (check_and_process self env) = self"
    "\<not> processed (check_and_process self env)"
    "ret (process_new_anomalies (batch_view env) (write_dataframe env) (detector self)
            since) = Inr (Count 0, 0)"
    "printed (check_and_process self env) =
           [InfoDatosEncontrados (length df_long),
            InfoDatosConvertidos (datetime_nunique df_wide) (length (wide_columns df_wide) - 1),
            AdvertenciaNoHayVariablesComunes (length (models det))
              (length (wide_columns df_wide) - 1)]"
    using assms(1-4) p by (simp_all add: check_and_process_def Let_def)
  with warning_only_without_overlap show ?thesis by blast
qed

theorem no_overlap_cycle_witness:
  "written (check_and_process other_worker example_env) = []
   \<and> last_processed_datetime (after (check_and_process other_worker example_env)) = Some 0
   \<and> printed (check_and_process other_worker example_env) =
       [InfoDatosEncontrados 3, InfoDatosConvertidos (Count 3) 1,
        AdvertenciaNoHayVariablesComunes 1 1]"
proof -
  let ?det = "example_detector\<lparr>models := [''Z'']\<rparr>"
  let ?w = "pivot_table_first (new_data_query example_table 0)"
  have a: "sql_conn other_worker = Some \<lparr>connected = True\<rparr>"
    "last_processed_datetime other_worker = Some 0" "detector other_worker = Some ?det"
    by (simp_all add: other_worker_def example_worker_def)
  have b: "get_new_data_from_sql (check_view example_env) 0 =
             Inr (Some (new_data_query example_table 0))"
    "get_new_data_from_sql (batch_view example_env) 0 =
             Inr (Some (new_data_query example_table 0))"
    by code_simp+
  have c: "convert_long_to_wide (new_data_query example_table 0) = Inr ?w"
    by code_simp
  have d: "\<forall>x \<in> set (models ?det). x \<notin> set (wide_columns ?w)"
    by code_simp
  have e: "length (new_data_query example_table 0) = 3"
    "datetime_nunique ?w = Count 3"
    "length (wide_columns ?w) - 1 = 1"
    by code_simp+
  from no_overlap_cycle[OF a b c d] a(2) e show ?thesis by simp
qed

text \<open>
  C7 as stated fails on what the caller receives. A cycle with no overlap and a cycle
  whose detection ran and returned an empty result (nothing scored, no anomaly found) hand
  the caller the same pair \<^verbatim>\<open>(0, 0)\<close>, and \<^verbatim>\<open>check_and_process\<close> returns false for both; the
  two differ only in what the pass prints.
\<close>

theorem no_overlap_returns_as_empty_detection:
  "ret (process_new_anomalies (batch_view example_env) (write_dataframe example_env)
          (detector other_worker) 0) = Inr (Count 0, 0)
   \<and> ret (process_new_anomalies (batch_view example_env) (write_dataframe example_env)
            (detector silent_worker) 0) = Inr (Count 0, 0)
   \<and> processed (check_and_process other_worker example_env) = False
   \<and> processed (check_and_process silent_worker example_env) = False
   \<and> printed (check_and_process silent_worker example_env) =
       [InfoDatosEncontrados 3, InfoDatosConvertidos (Count 3) 1, InfoVariablesAAnalizar 1 1]"
  by code_simp

text \<open>
  The test of line 169 reads all the columns of the wide frame, \<^verbatim>\<open>DATETIME\<close> among them:
  a model keyed \<^verbatim>\<open>DATETIME\<close> overlaps with any data, and detection runs.
\<close>

lemma model_called_DATETIME_overlaps:
  "map snd (written (check_and_process
      (example_worker\<lparr>detector := Some (example_detector\<lparr>models := [''DATETIME'']\<rparr>)\<rparr>)
      example_env)) = [WriteTrue]"
  by code_simp

lemma initialize_connected:
  assumes "initialize self ienv = (True, self1)"
  shows "sql_conn self1 = Some \<lparr>connected = True\<rparr>"
  using assms
  by (auto simp: initialize_def Let_def split: if_splits sum.splits option.splits)

lemma check_sql_conn: "sql_conn (after (check_and_process self env)) = sql_conn self"
  by (cases self env rule: check_and_process_cases) simp_all

lemma while_true_sql_conn:
  assumes "while_true self turns = Some (self', s)"
  shows "sql_conn self' = sql_conn self"
  using assms
proof (induction self turns rule: while_true.induct)
  case (1 self)
  then show ?case by simp
next
  case (2 self env rest)
  then show ?case by (simp add: check_sql_conn)
next
  case (3 self env st rest)
  then show ?case by (auto simp: check_sql_conn)
next
  case (4 self st rest)
  then show ?case by auto
qed

lemma while_true_stops:
  assumes "\<exists>t \<in> set turns. \<forall>env. t \<noteq> Completes env"
  shows "\<exists>r. while_true self turns = Some r"
  using assms
proof (induction self turns rule: while_true.induct)
  case (1 self)
  then show ?case by simp
next
  case (2 self env rest)
  then show ?case by simp
next
  case (3 self env st rest)
  then show ?case by simp
next
  case (4 self st rest)
  then show ?case by simp
qed

text \<open>
  C10. When \<^verbatim>\<open>initialize\<close> has succeeded, the connection it established is connected
  when the loop starts; however the loop is left (a keyboard interrupt, or anything else
  that escapes the loop body), \<^verbatim>\<open>run\<close> ends with that connection disconnected; and the
  loop is left as soon as one turn does not complete.
\<close>

theorem run_always_disconnects:
  assumes "initialize self ienv = (True, self1)"
  shows "sql_conn self1 = Some \<lparr>connected = True\<rparr>
       \<and> (\<forall>self' how. run self ienv turns = Some (self', how) \<longrightarrow>
            how \<noteq> InitFailed \<and> sql_conn self' = Some \<lparr>connected = False\<rparr>)
       \<and> ((\<exists>t \<in> set turns. \<forall>env. t \<noteq> Completes env) \<longrightarrow>
            (\<exists>self' how. run self ienv turns = Some (self', how)))"
proof (intro conjI allI impI)
  show c: "sql_conn self1 = Some \<lparr>connected = True\<rparr>"
    by (rule initialize_connected[OF assms])
  {
    fix self' how
    assume r: "run self ienv turns = Some (self', how)"
    with assms obtain self2 s where w: "while_true self1 turns = Some (self2, s)"
      and f: "self' = finally_disconnect self2" and h: "how \<noteq> InitFailed"
      by (auto simp: run_def split: option.splits stop.splits)
    from while_true_sql_conn[OF w] c have "sql_conn self2 = Some \<lparr>connected = True\<rparr>" by simp
    with f have "sql_conn self' = Some \<lparr>connected = False\<rparr>"
      by (simp add: finally_disconnect_def)
    with h show "how \<noteq> InitFailed" "sql_conn self' = Some \<lparr>connected = False\<rparr>" by simp_all
  }
  assume "\<exists>t \<in> set turns. \<forall>env. t \<noteq> Completes env"
  from while_true_stops[OF this, of self1] obtain self2 s where
    "while_true self1 turns = Some (self2, s)" by auto
  with assms show "\<exists>self' how. run self ienv turns = Some (self', how)"
    by (cases s) (simp_all add: run_def)
qed

theorem run_always_disconnects_witness:
  "(\<exists>self' how.
      run (worker_init 10) example_init_env
        [Completes example_env, StopsWhileSleeping example_env KeyboardInterrupt,
         Completes example_env]
        = Some (self', how)
      \<and> how = StoppedByUser \<and> sql_conn self' = Some \<lparr>connected = False\<rparr>)"
proof -
  let ?turns = "[Completes example_env, StopsWhileSleeping example_env KeyboardInterrupt,
                 Completes example_env]"
  have "fst (initialize (worker_init 10) example_init_env)"
    by (simp add: initialize_def example_init_env_def worker_init_def
          get_last_processed_datetime_def)
  then obtain self1 where i: "initialize (worker_init 10) example_init_env = (True, self1)"
    by (cases "initialize (worker_init 10) example_init_env") auto
  have s: "\<exists>t \<in> set ?turns. \<forall>env. t \<noteq> Completes env" by simp
  from run_always_disconnects[OF i, of ?turns] s obtain self' how where
    r: "run (worker_init 10) example_init_env ?turns = Some (self', how)"
    and d: "sql_conn self' = Some \<lparr>connected = False\<rparr>"
    by blast
  from r i have "how = StoppedByUser"
    by (auto simp: run_def split: option.splits stop.splits)
  with r d show ?thesis by blast
qed

text \<open>
  The \<^verbatim>\<open>finally\<close> guards the loop only: when \<^verbatim>\<open>initialize\<close> fails after connecting (here,
  creating the table raises), \<^verbatim>\<open>run\<close> returns at line 363 with the connection still open.
\<close>

lemma failed_initialize_leaves_connection:
  assumes "models_found ienv" and "connect_ok ienv" and "create_table_raises ienv"
  shows "\<exists>self'. run self ienv turns = Some (self', InitFailed)
           \<and> sql_conn self' = Some \<lparr>connected = True\<rparr>"
  using assms by (simp add: run_def initialize_def Let_def)


end
